theory Spec2Isabelle
  imports Main "HOL-Library.Multiset"
begin

section \<open>The observed Discord world\<close>

text \<open>
  Both entry points (\<^verbatim>\<open>index.js\<close>, whose handler is registered for the event
  \<^verbatim>\<open>ready\<close>, and the second file, whose handler is registered for \<^verbatim>\<open>clientReady\<close>)
  read the same kind of objects from discord.js. Identifiers are strings (snowflakes),
  timestamps are integers (milliseconds since the epoch). Every call that can throw is a
  field of option type: \<open>None\<close> is the exception.
\<close>

record role =
  role_id :: string
  role_name :: string

record member =
  roles :: "role list"

record user =
  user_id :: string
  bot :: bool
  username :: string

record reaction =
  emoji :: string
  users_fetch :: "user list option"

record message =
  msg_id :: string
  channelId :: string
  author :: user
  msg_member :: "member option"
  createdTimestamp :: int
  reactions :: "reaction list"
  url :: string

text \<open>
  A channel as the transport shows it: \<open>pages\<close> are the replies to the successive calls
  \<^verbatim>\<open>channel.messages.fetch({limit: 100, before})\<close> of \<^verbatim>\<open>fetchRecentMessages\<close> (when
  the list is used up the transport has nothing more and replies with an empty batch),
  \<open>latest\<close> is the reply to \<^verbatim>\<open>channel.messages.fetch({limit: 20})\<close>, and \<open>clock\<close> is
  the value of \<^verbatim>\<open>Date.now()\<close> read when \<^verbatim>\<open>fetchRecentMessages\<close> is entered for
  the channel.
\<close>

record channel =
  channel_id :: string
  channel_name :: string
  isTextBased :: bool
  clock :: int
  pages :: "message list option list"
  latest :: "message list option"

record guild =
  guild_roles :: "role list"
  channels :: "channel list"
  members_fetch :: "string \<Rightarrow> member option"
  members_cache :: "string \<Rightarrow> member option"

definition endsWith :: "string \<Rightarrow> string \<Rightarrow> bool" where
  "endsWith s suf = (length suf \<le> length s \<and> drop (length s - length suf) s = suf)"

definition is_ext :: "role \<Rightarrow> bool" where
  "is_ext r = endsWith (role_name r) ''-ext''"

definition clientRoles :: "guild \<Rightarrow> role list" where
  "clientRoles g = filter is_ext (guild_roles g)"

definition textChannels :: "guild \<Rightarrow> channel list" where
  "textChannels g = filter isTextBased (channels g)"

definition hasClientRole :: "member \<Rightarrow> bool" where
  "hasClientRole m = list_ex is_ext (roles m)"

text \<open>\<^verbatim>\<open>member.roles.cache.has(ID)\<close>\<close>

definition has_role :: "string \<Rightarrow> member \<Rightarrow> bool" where
  "has_role rid m = list_ex (\<lambda>r. role_id r = rid) (roles m)"

text \<open>
  \<^verbatim>\<open>let member = msg.member; if (!member) member = await guild.members.fetch(...)\<close>,
  where a failing fetch skips the message.
\<close>

definition resolve_member :: "guild \<Rightarrow> message \<Rightarrow> member option" where
  "resolve_member g msg =
     (case msg_member msg of
        Some m \<Rightarrow> Some m
      | None \<Rightarrow> members_fetch g (user_id (author msg)))"

section \<open>index.js: the handler of \<^verbatim>\<open>ready\<close>\<close>

subsection \<open>fetchRecentMessages\<close>

definition timeWindow :: int where
  "timeWindow = 3 * 60 * 60 * 1000"

text \<open>
  The \<^verbatim>\<open>for\<close> loop over one batch: the flag says that the function returned from
  inside the loop, at the first message older than the cutoff.
\<close>

fun scan_page :: "int \<Rightarrow> message list \<Rightarrow> message list \<Rightarrow> message list \<times> bool" where
  "scan_page cutoffTime [] messages = (messages, False)"
| "scan_page cutoffTime (msg # rest) messages =
     (if createdTimestamp msg < cutoffTime then (messages, True)
      else scan_page cutoffTime rest (messages @ [msg]))"

fun fetch_loop :: "int \<Rightarrow> message list option list \<Rightarrow> message list \<Rightarrow> message list option" where
  "fetch_loop cutoffTime [] messages = Some messages"
| "fetch_loop cutoffTime (None # ps) messages = None"
| "fetch_loop cutoffTime (Some batch # ps) messages =
     (case scan_page cutoffTime batch messages of
        (messages', True) \<Rightarrow> Some messages'
      | (messages', False) \<Rightarrow>
          if length batch < 100 then Some messages'
          else if createdTimestamp (last batch) < cutoffTime then Some messages'
          else fetch_loop cutoffTime ps messages')"

definition fetchRecentMessages :: "channel \<Rightarrow> message list option" where
  "fetchRecentMessages ch = fetch_loop (clock ch - timeWindow) (pages ch) []"

subsection \<open>hasStaffReply and hasStaffReaction\<close>

definition hasStaffReply :: "guild \<Rightarrow> string \<Rightarrow> message list \<Rightarrow> message \<Rightarrow> bool" where
  "hasStaffReply g MANAGER_ROLE_ID allMessages msg =
     list_ex (\<lambda>replyMsg.
        if channelId replyMsg \<noteq> channelId msg then False
        else if createdTimestamp replyMsg \<le> createdTimestamp msg then False
        else if bot (author replyMsg) then False
        else (case (case msg_member replyMsg of
                      Some m \<Rightarrow> Some m
                    | None \<Rightarrow> members_cache g (user_id (author replyMsg))) of
                None \<Rightarrow> False
              | Some replyMember \<Rightarrow> has_role MANAGER_ROLE_ID replyMember))
       allMessages"

text \<open>
  The reaction check is the only part of the scan of a message that talks to the
  transport after the member of the author is known. Its calls are recorded:
  \<open>FetchReactors\<close> is \<^verbatim>\<open>reaction.users.fetch()\<close> for one emoji of one message,
  \<open>FetchMember\<close> is \<^verbatim>\<open>guild.members.fetch(userId)\<close> for one reactor.
\<close>

datatype io = FetchReactors string string | FetchMember string

definition log_io :: "io \<Rightarrow> bool \<times> io list \<Rightarrow> bool \<times> io list" where
  "log_io e p = (fst p, e # snd p)"

fun react_users :: "guild \<Rightarrow> string \<Rightarrow> user list \<Rightarrow> bool \<times> io list" where
  "react_users g MANAGER_ROLE_ID [] = (False, [])"
| "react_users g MANAGER_ROLE_ID (u # us) =
     (if bot u then react_users g MANAGER_ROLE_ID us
      else (case members_fetch g (user_id u) of
              None \<Rightarrow> log_io (FetchMember (user_id u)) (react_users g MANAGER_ROLE_ID us)
            | Some reactionMember \<Rightarrow>
                if has_role MANAGER_ROLE_ID reactionMember
                then (True, [FetchMember (user_id u)])
                else log_io (FetchMember (user_id u)) (react_users g MANAGER_ROLE_ID us)))"

fun react_scan :: "guild \<Rightarrow> string \<Rightarrow> string \<Rightarrow> reaction list \<Rightarrow> bool \<times> io list" where
  "react_scan g MANAGER_ROLE_ID mid [] = (False, [])"
| "react_scan g MANAGER_ROLE_ID mid (r # rs) =
     log_io (FetchReactors mid (emoji r))
       (case users_fetch r of
          None \<Rightarrow> react_scan g MANAGER_ROLE_ID mid rs
        | Some users \<Rightarrow>
            (case react_users g MANAGER_ROLE_ID users of
               (True, tr) \<Rightarrow> (True, tr)
             | (False, tr) \<Rightarrow>
                 (fst (react_scan g MANAGER_ROLE_ID mid rs),
                  tr @ snd (react_scan g MANAGER_ROLE_ID mid rs))))"

definition hasStaffReaction :: "guild \<Rightarrow> string \<Rightarrow> message \<Rightarrow> bool \<times> io list" where
  "hasStaffReaction g MANAGER_ROLE_ID msg =
     (if reactions msg = [] then (False, [])
      else react_scan g MANAGER_ROLE_ID (msg_id msg) (reactions msg))"

text \<open>\<^verbatim>\<open>const isAnswered = hasStaffReply || hasStaffReaction\<close>, on two values already computed.\<close>

definition isAnswered :: "guild \<Rightarrow> string \<Rightarrow> message list \<Rightarrow> message \<Rightarrow> bool" where
  "isAnswered g MANAGER_ROLE_ID allMessages msg =
     (hasStaffReply g MANAGER_ROLE_ID allMessages msg \<or> fst (hasStaffReaction g MANAGER_ROLE_ID msg))"

subsection \<open>The scan of a channel\<close>

record alert_entry =
  messageId :: string
  entry_channelId :: string
  channelName :: string
  authorName :: string
  authorId :: string
  messageUrl :: string
  createdAt :: int

record scan_state =
  unansweredMessages :: "alert_entry list"
  answeredMessageIds :: "string list"
  io_log :: "io list"

definition entry_of :: "channel \<Rightarrow> message \<Rightarrow> alert_entry" where
  "entry_of ch msg =
     \<lparr>messageId = msg_id msg, entry_channelId = channel_id ch,
      channelName = channel_name ch, authorName = username (author msg),
      authorId = user_id (author msg), messageUrl = url msg,
      createdAt = createdTimestamp msg\<rparr>"

text \<open>
  The body of \<^verbatim>\<open>for (const msg of allMessages)\<close>. \<open>alertedMessages\<close> is
  \<^verbatim>\<open>db.alertedMessages\<close>, which the scan reads and does not change. Both operands of
  \<open>isAnswered\<close> are computed before it, so the calls of the reaction check are logged
  whatever the reply check returned.
\<close>

definition ready_msg ::
  "guild \<Rightarrow> string \<Rightarrow> string list \<Rightarrow> channel \<Rightarrow> message list \<Rightarrow> message \<Rightarrow> scan_state \<Rightarrow> scan_state" where
  "ready_msg g MANAGER_ROLE_ID alertedMessages ch allMessages msg st =
     (if bot (author msg) then st
      else (case resolve_member g msg of
              None \<Rightarrow> st
            | Some mem \<Rightarrow>
                if \<not> hasClientRole mem then st
                else
                  (let answered = isAnswered g MANAGER_ROLE_ID allMessages msg;
                       st1 = st\<lparr>io_log := io_log st @ snd (hasStaffReaction g MANAGER_ROLE_ID msg)\<rparr>;
                       st2 = (if answered \<and> msg_id msg \<in> set alertedMessages
                              then st1\<lparr>answeredMessageIds := answeredMessageIds st1 @ [msg_id msg]\<rparr>
                              else st1)
                   in if \<not> answered \<and> msg_id msg \<notin> set alertedMessages
                      then st2\<lparr>unansweredMessages := unansweredMessages st2 @ [entry_of ch msg]\<rparr>
                      else st2)))"

text \<open>
  \<^verbatim>\<open>allMessages.sort((a, b) => a.createdTimestamp - b.createdTimestamp)\<close> is a stable
  sort by timestamp. A transport error in \<^verbatim>\<open>fetchRecentMessages\<close> is caught by the
  \<^verbatim>\<open>try\<close> around the channel: the channel is skipped.
\<close>

definition window :: "channel \<Rightarrow> message list option" where
  "window ch = map_option (sort_key createdTimestamp) (fetchRecentMessages ch)"

definition ready_channel ::
  "guild \<Rightarrow> string \<Rightarrow> string list \<Rightarrow> channel \<Rightarrow> scan_state \<Rightarrow> scan_state" where
  "ready_channel g MANAGER_ROLE_ID alertedMessages ch st =
     (case window ch of
        None \<Rightarrow> st
      | Some allMessages \<Rightarrow>
          fold (ready_msg g MANAGER_ROLE_ID alertedMessages ch allMessages) allMessages st)"

definition ready_scan :: "guild \<Rightarrow> string \<Rightarrow> string list \<Rightarrow> scan_state" where
  "ready_scan g MANAGER_ROLE_ID alertedMessages =
     fold (ready_channel g MANAGER_ROLE_ID alertedMessages) (textChannels g)
       \<lparr>unansweredMessages = [], answeredMessageIds = [], io_log = []\<rparr>"

subsection \<open>Batching, sending and marking\<close>

text \<open>
  \<^verbatim>\<open>for (let i = 0; i < unansweredMessages.length; i += 5)
    alertBatches.push(unansweredMessages.slice(i, i + 5));\<close>
\<close>

function batches_from :: "nat \<Rightarrow> 'a list \<Rightarrow> 'a list list" where
  "batches_from i xs =
     (if i < length xs then take 5 (drop i xs) # batches_from (i + 5) xs else [])"
  by pat_completeness auto
termination
  by (relation "measure (\<lambda>(i, xs). length xs - i)") auto

declare batches_from.simps [simp del]

definition alertBatches :: "'a list \<Rightarrow> 'a list list" where
  "alertBatches xs = batches_from 0 xs"

fun join :: "string \<Rightarrow> string list \<Rightarrow> string" where
  "join sep [] = []"
| "join sep [x] = x"
| "join sep (x # y # ys) = x @ sep @ join sep (y # ys)"

definition alert_line :: "alert_entry \<Rightarrow> string" where
  "alert_line m =
     ''**Unanswered**: Message from **'' @ authorName m @ ''** in <#'' @ entry_channelId m
       @ ''> channel. '' @ [CHR 0x0A] @ ''[Jump to message]('' @ messageUrl m @ '')''"

definition batch_text :: "string \<Rightarrow> alert_entry list \<Rightarrow> string" where
  "batch_text MANAGER_ROLE_ID batch =
     ''<@&'' @ MANAGER_ROLE_ID @ ''>'' @ [CHR 0x0A]
       @ join [CHR 0x0A, CHR 0x0A] (map alert_line batch)"

text \<open>
  The alert sink: \<open>pm_fetch\<close> says whether
  \<^verbatim>\<open>client.channels.fetch(PROJECT_MGMT_CHANNEL_ID)\<close> succeeds, \<open>send_ok i\<close> whether the
  call number \<open>i\<close> (from 0) of \<^verbatim>\<open>pmChannel.send\<close> in this run succeeds.
\<close>

record sink =
  pm_fetch :: bool
  send_ok :: "nat \<Rightarrow> bool"

text \<open>
  \<^verbatim>\<open>for (const batch of alertBatches)\<close>, on the pair of \<^verbatim>\<open>db.alertedMessages\<close> and the
  texts delivered so far. A send that throws leaves the loop (the \<^verbatim>\<open>catch\<close> is outside
  of it), so the batch and all later ones are neither sent nor marked.
\<close>

fun send_batches ::
  "(nat \<Rightarrow> bool) \<Rightarrow> string \<Rightarrow> nat \<Rightarrow> alert_entry list list \<Rightarrow> string list \<times> string list
     \<Rightarrow> string list \<times> string list" where
  "send_batches ok MANAGER_ROLE_ID i [] st = st"
| "send_batches ok MANAGER_ROLE_ID i (batch # rest) st =
     (if ok i
      then send_batches ok MANAGER_ROLE_ID (Suc i) rest
             (fst st @ map messageId batch, snd st @ [batch_text MANAGER_ROLE_ID batch])
      else st)"

record ready_result =
  saved :: "string list"
  sent :: "string list"
  scanned :: scan_state

text \<open>
  The handler, from the guild it has fetched to \<^verbatim>\<open>saveDB\<close>: what it saves, what it has
  sent, and what the scan has collected. Without a client role it saves the list as
  loaded and exits.
\<close>

definition ready :: "guild \<Rightarrow> string \<Rightarrow> sink \<Rightarrow> string list \<Rightarrow> ready_result" where
  "ready g MANAGER_ROLE_ID snk alertedMessages =
     (if clientRoles g = []
      then \<lparr>saved = alertedMessages, sent = [],
            scanned = \<lparr>unansweredMessages = [], answeredMessageIds = [], io_log = []\<rparr>\<rparr>
      else
        (let st = ready_scan g MANAGER_ROLE_ID alertedMessages;
             db1 = (if answeredMessageIds st \<noteq> []
                    then filter (\<lambda>id. id \<notin> set (answeredMessageIds st)) alertedMessages
                    else alertedMessages);
             out = (if unansweredMessages st \<noteq> [] \<and> pm_fetch snk
                    then send_batches (send_ok snk) MANAGER_ROLE_ID 0
                           (alertBatches (unansweredMessages st)) (db1, [])
                    else (db1, []))
         in \<lparr>saved = fst out, sent = snd out, scanned = st\<rparr>))"

section \<open>The second entry point: the handler of \<^verbatim>\<open>clientReady\<close>\<close>

subsection \<open>The store\<close>

text \<open>
  \<^verbatim>\<open>db.json\<close> maps the key \<^verbatim>\<open>`${channel.id}-${msg.id}`\<close> to an object. The handler
  reads the fields \<^verbatim>\<open>lastAlert\<close>, \<^verbatim>\<open>snoozedUntil\<close> and \<^verbatim>\<open>handled\<close> with
  \<^verbatim>\<open>existing.f || default\<close>, so an object is a map from field names to values, and a
  value is a number or a boolean with JavaScript's truthiness and conversion to a number.
\<close>

datatype jsval = JNum int | JBool bool

fun truthy :: "jsval \<Rightarrow> bool" where
  "truthy (JNum n) = (n \<noteq> 0)"
| "truthy (JBool b) = b"

fun to_number :: "jsval \<Rightarrow> int" where
  "to_number (JNum n) = n"
| "to_number (JBool b) = (if b then 1 else 0)"

type_synonym alert_record = "string \<Rightarrow> jsval option"
type_synonym db = "string \<Rightarrow> alert_record option"

text \<open>\<^verbatim>\<open>existing.f || d\<close>: a missing field reads as \<^verbatim>\<open>undefined\<close>, which is falsy.\<close>

definition js_or :: "jsval option \<Rightarrow> jsval \<Rightarrow> jsval" where
  "js_or v d = (case v of None \<Rightarrow> d | Some x \<Rightarrow> if truthy x then x else d)"

text \<open>\<^verbatim>\<open>db[key] || {}\<close>\<close>

definition existing_of :: "db \<Rightarrow> string \<Rightarrow> alert_record" where
  "existing_of d key = (case d key of None \<Rightarrow> Map.empty | Some r \<Rightarrow> r)"

text \<open>\<^verbatim>\<open>{ lastAlert: now, handled: false }\<close>\<close>

definition alerted_record :: "int \<Rightarrow> alert_record" where
  "alerted_record t = [''lastAlert'' \<mapsto> JNum t, ''handled'' \<mapsto> JBool False]"

subsection \<open>Policy constants\<close>

definition TEST_WAIT_TIME :: int where "TEST_WAIT_TIME = 2 * 60 * 1000"
definition TEST_ALERT_COOLDOWN :: int where "TEST_ALERT_COOLDOWN = 1 * 60 * 1000"
definition PROD_WAIT_TIME :: int where "PROD_WAIT_TIME = 45 * 60 * 1000"
definition PROD_ALERT_COOLDOWN :: int where "PROD_ALERT_COOLDOWN = 30 * 60 * 1000"

text \<open>
  What a run reads from its surroundings: \<open>now\<close> is the one \<^verbatim>\<open>Date.now()\<close> of the
  handler, \<open>hours\<close> the local hour that \<^verbatim>\<open>new Date().getHours()\<close> returns during the
  run, \<open>TESTING\<close> the module constant (the file sets it to true and says to set it to
  false for production).
\<close>

record ctx =
  now :: int
  hours :: nat
  TESTING :: bool

definition waitTime :: "ctx \<Rightarrow> int" where
  "waitTime c = (if TESTING c then TEST_WAIT_TIME else PROD_WAIT_TIME)"

definition cooldown :: "ctx \<Rightarrow> int" where
  "cooldown c = (if TESTING c then TEST_ALERT_COOLDOWN else PROD_ALERT_COOLDOWN)"

definition isNight :: "ctx \<Rightarrow> bool" where
  "isNight c = (hours c < 8 \<or> hours c \<ge> 21)"

definition isOld :: "ctx \<Rightarrow> int \<Rightarrow> bool" where
  "isOld c msgAge = (msgAge > waitTime c)"

definition nightCheck :: "ctx \<Rightarrow> int \<Rightarrow> bool" where
  "nightCheck c msgAge = (\<not> TESTING c \<and> isNight c \<and> msgAge < 12 * 60 * 60 * 1000)"

subsection \<open>The scan of a message\<close>

definition staffReplies :: "guild \<Rightarrow> string \<Rightarrow> message list \<Rightarrow> message \<Rightarrow> message list" where
  "staffReplies g STAFF_ROLE_ID msgs msg =
     filter (\<lambda>replyMsg.
        if createdTimestamp replyMsg \<le> createdTimestamp msg then False
        else (case resolve_member g replyMsg of
                None \<Rightarrow> False
              | Some replyMember \<Rightarrow> has_role STAFF_ROLE_ID replyMember))
       msgs"

definition staffReplied :: "guild \<Rightarrow> string \<Rightarrow> message list \<Rightarrow> message \<Rightarrow> bool" where
  "staffReplied g STAFF_ROLE_ID msgs msg = (length (staffReplies g STAFF_ROLE_ID msgs msg) > 0)"

definition db_key :: "channel \<Rightarrow> message \<Rightarrow> string" where
  "db_key ch msg = channel_id ch @ ''-'' @ msg_id msg"

definition alert_text :: "string \<Rightarrow> channel \<Rightarrow> message \<Rightarrow> string" where
  "alert_text STAFF_ROLE_ID ch msg =
     ''<@&'' @ STAFF_ROLE_ID @ ''> Message from **'' @ username (author msg) @ ''** in <#''
       @ channel_id ch @ ''>'' @ [CHR 0x0A] @ ''[Jump to message]('' @ url msg @ '')''"

text \<open>
  The part of the loop body after \<^verbatim>\<open>if (staffReplied) continue\<close>, on the pair of
  \<^verbatim>\<open>alertMessages\<close> and \<^verbatim>\<open>db\<close>.
\<close>

definition check_alert ::
  "ctx \<Rightarrow> string \<Rightarrow> channel \<Rightarrow> message \<Rightarrow> string list \<times> db \<Rightarrow> string list \<times> db" where
  "check_alert c STAFF_ROLE_ID ch msg st =
     (let key = db_key ch msg;
          existing = existing_of (snd st) key;
          lastAlert = js_or (existing ''lastAlert'') (JNum 0);
          snoozedUntil = js_or (existing ''snoozedUntil'') (JNum 0);
          handled = js_or (existing ''handled'') (JBool False)
      in if truthy handled \<or> to_number snoozedUntil > now c then st
         else
           (let msgAge = now c - createdTimestamp msg
            in if isOld c msgAge \<or> nightCheck c msgAge
               then (if now c - to_number lastAlert > cooldown c
                     then (fst st @ [alert_text STAFF_ROLE_ID ch msg],
                           (snd st)(key \<mapsto> alerted_record (now c)))
                     else st)
               else st))"

definition clientReady_msg ::
  "ctx \<Rightarrow> guild \<Rightarrow> string \<Rightarrow> channel \<Rightarrow> message list \<Rightarrow> message \<Rightarrow> string list \<times> db
     \<Rightarrow> string list \<times> db" where
  "clientReady_msg c g STAFF_ROLE_ID ch msgs msg st =
     (if bot (author msg) then st
      else (case resolve_member g msg of
              None \<Rightarrow> st
            | Some mem \<Rightarrow>
                if \<not> hasClientRole mem then st
                else if staffReplied g STAFF_ROLE_ID msgs msg then st
                else check_alert c STAFF_ROLE_ID ch msg st))"

text \<open>
  A failing \<^verbatim>\<open>channel.messages.fetch({ limit: 20 })\<close> is caught by the \<^verbatim>\<open>try\<close> around
  the channel. The messages are visited in the order of the reply.
\<close>

definition clientReady_channel ::
  "ctx \<Rightarrow> guild \<Rightarrow> string \<Rightarrow> channel \<Rightarrow> string list \<times> db \<Rightarrow> string list \<times> db" where
  "clientReady_channel c g STAFF_ROLE_ID ch st =
     (case latest ch of
        None \<Rightarrow> st
      | Some msgs \<Rightarrow>
          if length msgs = 0 then st
          else fold (clientReady_msg c g STAFF_ROLE_ID ch msgs) msgs st)"

definition clientReady_scan :: "ctx \<Rightarrow> guild \<Rightarrow> string \<Rightarrow> db \<Rightarrow> string list \<times> db" where
  "clientReady_scan c g STAFF_ROLE_ID d =
     fold (clientReady_channel c g STAFF_ROLE_ID) (textChannels g) ([], d)"

text \<open>
  \<^verbatim>\<open>for (const alert of alertMessages) await pmChannel.send(alert)\<close>, inside one
  \<^verbatim>\<open>try\<close>: the texts delivered before the first failure.
\<close>

fun send_each :: "(nat \<Rightarrow> bool) \<Rightarrow> nat \<Rightarrow> string list \<Rightarrow> string list" where
  "send_each ok i [] = []"
| "send_each ok i (a # as) = (if ok i then a # send_each ok (Suc i) as else [])"

record clientReady_result =
  saved_db :: db
  delivered :: "string list"
  alertMessages :: "string list"

text \<open>
  Without a client role the handler returns before the scan and before
  \<^verbatim>\<open>saveDB\<close>: the file keeps the store that was loaded.
\<close>

definition clientReady :: "ctx \<Rightarrow> guild \<Rightarrow> string \<Rightarrow> sink \<Rightarrow> db \<Rightarrow> clientReady_result" where
  "clientReady c g STAFF_ROLE_ID snk d =
     (if clientRoles g = []
      then \<lparr>saved_db = d, delivered = [], alertMessages = []\<rparr>
      else
        (let st = clientReady_scan c g STAFF_ROLE_ID d
         in \<lparr>saved_db = snd st,
             delivered = (if fst st \<noteq> [] \<and> pm_fetch snk
                          then send_each (send_ok snk) 0 (fst st) else []),
             alertMessages = fst st\<rparr>))"

subsection \<open>The decision of the policy, named as the specification names it\<close>

text \<open>
  The handler has no decision value: it leaves the state alone or queues an alert.
  \<open>decide\<close> names the branches of \<open>check_alert\<close> with the three outcomes of the
  specification; \<open>check_alert_decide\<close> below shows that the state changes exactly when
  the outcome is \<open>AlertNow\<close>.
\<close>

datatype decision = NoAction | Suppress | AlertNow

definition silenced :: "ctx \<Rightarrow> alert_record \<Rightarrow> bool" where
  "silenced c existing =
     (truthy (js_or (existing ''handled'') (JBool False))
      \<or> to_number (js_or (existing ''snoozedUntil'') (JNum 0)) > now c)"

definition gate :: "ctx \<Rightarrow> int \<Rightarrow> bool" where
  "gate c msgAge = (isOld c msgAge \<or> nightCheck c msgAge)"

definition decide :: "ctx \<Rightarrow> alert_record \<Rightarrow> int \<Rightarrow> decision" where
  "decide c existing created =
     (if silenced c existing then NoAction
      else if \<not> gate c (now c - created) then NoAction
      else if now c - to_number (js_or (existing ''lastAlert'') (JNum 0)) > cooldown c
           then AlertNow
      else Suppress)"

section \<open>Notions used to state the properties\<close>

subsection \<open>The scans as one loop\<close>

text \<open>
  Every visit of a message by a scan, in order: the channel, the list the channel's
  loop runs over, and the message.
\<close>

type_synonym visit = "channel \<times> message list \<times> message"

definition ready_visits :: "guild \<Rightarrow> visit list" where
  "ready_visits g =
     concat (map (\<lambda>ch. case window ch of None \<Rightarrow> [] | Some w \<Rightarrow> map (\<lambda>m. (ch, w, m)) w)
                 (textChannels g))"

definition clientReady_visits :: "guild \<Rightarrow> visit list" where
  "clientReady_visits g =
     concat (map (\<lambda>ch. case latest ch of None \<Rightarrow> [] | Some msgs \<Rightarrow> map (\<lambda>m. (ch, msgs, m)) msgs)
                 (textChannels g))"

definition ready_visit ::
  "guild \<Rightarrow> string \<Rightarrow> string list \<Rightarrow> visit \<Rightarrow> scan_state \<Rightarrow> scan_state" where
  "ready_visit g MANAGER_ROLE_ID alertedMessages x =
     ready_msg g MANAGER_ROLE_ID alertedMessages (fst x) (fst (snd x)) (snd (snd x))"

definition clientReady_visit ::
  "ctx \<Rightarrow> guild \<Rightarrow> string \<Rightarrow> visit \<Rightarrow> string list \<times> db \<Rightarrow> string list \<times> db" where
  "clientReady_visit c g STAFF_ROLE_ID x =
     clientReady_msg c g STAFF_ROLE_ID (fst x) (fst (snd x)) (snd (snd x))"

text \<open>The ids of the messages that the handler of \<^verbatim>\<open>ready\<close> visits, with repetitions.\<close>

definition observed_ids :: "guild \<Rightarrow> string list" where
  "observed_ids g = map (\<lambda>x. msg_id (snd (snd x))) (ready_visits g)"

text \<open>A message that passes the checks on its author: not a bot, member known, client role.\<close>

definition monitored :: "guild \<Rightarrow> message \<Rightarrow> bool" where
  "monitored g msg =
     (\<not> bot (author msg) \<and> (\<exists>mem. resolve_member g msg = Some mem \<and> hasClientRole mem))"

text \<open>The visits of the second entry point that queue an alert when the store is \<open>d\<close>.\<close>

definition fires :: "ctx \<Rightarrow> guild \<Rightarrow> string \<Rightarrow> visit \<Rightarrow> db \<Rightarrow> bool" where
  "fires c g STAFF_ROLE_ID x d =
     (monitored g (snd (snd x))
      \<and> \<not> staffReplied g STAFF_ROLE_ID (fst (snd x)) (snd (snd x))
      \<and> decide c (existing_of d (db_key (fst x) (snd (snd x))))
                 (createdTimestamp (snd (snd x))) = AlertNow)"

subsection \<open>Qualifying responses\<close>

text \<open>
  Reply-after in the words of the specification: a non-bot message of the same channel in
  the window, strictly later, whose author is classified internal, that is, whose role
  set holds the staff role. The role set of the author is the one the directory gives:
  the member attached to the message, or else the member fetched for the author.
\<close>

definition qualifying_reply :: "guild \<Rightarrow> string \<Rightarrow> message list \<Rightarrow> message \<Rightarrow> bool" where
  "qualifying_reply g staff w msg =
     (\<exists>r \<in> set w. channelId r = channelId msg
        \<and> createdTimestamp msg < createdTimestamp r
        \<and> \<not> bot (author r)
        \<and> (\<exists>mem. resolve_member g r = Some mem \<and> has_role staff mem))"

text \<open>
  The reply-after that \<^verbatim>\<open>hasStaffReply\<close> of \<^verbatim>\<open>index.js\<close> can see. It does not fetch the
  member of the replier: it takes the member attached to the message or else looks into
  the member cache, and a replier found in neither does not count, whatever the
  directory says of it.
\<close>

definition staff_reply_seen :: "guild \<Rightarrow> string \<Rightarrow> message list \<Rightarrow> message \<Rightarrow> bool" where
  "staff_reply_seen g staff w msg =
     (\<exists>r \<in> set w. channelId r = channelId msg
        \<and> createdTimestamp msg < createdTimestamp r
        \<and> \<not> bot (author r)
        \<and> (\<exists>mem. has_role staff mem
              \<and> (msg_member r = Some mem
                 \<or> msg_member r = None \<and> members_cache g (user_id (author r)) = Some mem)))"

text \<open>
  The member cache answers for the authors of a window as the directory does: for every
  message without an attached member, the cache and the fetch give the same member.
\<close>

definition cache_warm :: "guild \<Rightarrow> message list \<Rightarrow> bool" where
  "cache_warm g w =
     (\<forall>r \<in> set w. msg_member r = None \<longrightarrow>
        members_cache g (user_id (author r)) = members_fetch g (user_id (author r)))"

text \<open>
  Reaction in the words of the specification: a non-bot reactor, among the reactors
  fetched for an emoji of the message, whose fetched member holds the staff role.
\<close>

definition staff_reactor :: "guild \<Rightarrow> string \<Rightarrow> user \<Rightarrow> bool" where
  "staff_reactor g staff u =
     (\<not> bot u \<and> (\<exists>mem. members_fetch g (user_id u) = Some mem \<and> has_role staff mem))"

definition qualifying_reaction :: "guild \<Rightarrow> string \<Rightarrow> message \<Rightarrow> bool" where
  "qualifying_reaction g staff msg =
     (\<exists>rc \<in> set (reactions msg). \<exists>us. users_fetch rc = Some us
        \<and> (\<exists>u \<in> set us. staff_reactor g staff u))"

text \<open>
  The reply that the second entry point accepts: any strictly later message of the reply
  to the fetch whose author, resolved as the handler resolves it, holds the staff role.
\<close>

definition later_staff_message :: "guild \<Rightarrow> string \<Rightarrow> message list \<Rightarrow> message \<Rightarrow> bool" where
  "later_staff_message g staff msgs msg =
     (\<exists>r \<in> set msgs. createdTimestamp msg < createdTimestamp r
        \<and> (\<exists>mem. resolve_member g r = Some mem \<and> has_role staff mem))"

text \<open>A message with its reactions taken away, to say what does not depend on them.\<close>

definition without_reactions :: "message \<Rightarrow> message" where
  "without_reactions msg = msg\<lparr>reactions := []\<rparr>"

section \<open>A small guild for the examples\<close>

text \<open>
  One client (ann, role \<^verbatim>\<open>acme-ext\<close>) and one staff member (bob, role id 20) in the text
  channel 7. ann asks at \<open>T0\<close>; bob may answer five minutes later or react.
\<close>

definition ex_ext :: role where
  "ex_ext = \<lparr>role_id = ''10'', role_name = ''acme-ext''\<rparr>"

definition ex_staff :: role where
  "ex_staff = \<lparr>role_id = ''20'', role_name = ''staff''\<rparr>"

definition ex_ann :: user where
  "ex_ann = \<lparr>user_id = ''1'', bot = False, username = ''ann''\<rparr>"

definition ex_bob :: user where
  "ex_bob = \<lparr>user_id = ''2'', bot = False, username = ''bob''\<rparr>"

definition ex_members :: "string \<Rightarrow> member option" where
  "ex_members = [''1'' \<mapsto> \<lparr>roles = [ex_ext]\<rparr>, ''2'' \<mapsto> \<lparr>roles = [ex_staff]\<rparr>]"

definition T0 :: int where
  "T0 = 1700000000000"

definition minute :: int where
  "minute = 60000"

definition ex_question :: message where
  "ex_question =
     \<lparr>msg_id = ''100'', channelId = ''7'', author = ex_ann,
      msg_member = Some \<lparr>roles = [ex_ext]\<rparr>, createdTimestamp = T0, reactions = [],
      url = ''q''\<rparr>"

definition ex_reply :: message where
  "ex_reply =
     \<lparr>msg_id = ''101'', channelId = ''7'', author = ex_bob,
      msg_member = Some \<lparr>roles = [ex_staff]\<rparr>, createdTimestamp = T0 + 5 * minute,
      reactions = [], url = ''r''\<rparr>"

definition ex_thumbs :: reaction where
  "ex_thumbs = \<lparr>emoji = ''ok'', users_fetch = Some [ex_bob]\<rparr>"

text \<open>ann's question with bob's reaction, and a second message of ann ten minutes later.\<close>

definition ex_question_reacted :: message where
  "ex_question_reacted = ex_question\<lparr>reactions := [ex_thumbs]\<rparr>"

definition ex_followup :: message where
  "ex_followup =
     \<lparr>msg_id = ''102'', channelId = ''7'', author = ex_ann,
      msg_member = Some \<lparr>roles = [ex_ext]\<rparr>, createdTimestamp = T0 + 10 * minute,
      reactions = [], url = ''f''\<rparr>"

definition ex_channel :: "int \<Rightarrow> message list \<Rightarrow> channel" where
  "ex_channel t msgs =
     \<lparr>channel_id = ''7'', channel_name = ''help'', isTextBased = True, clock = t,
      pages = [Some msgs], latest = Some msgs\<rparr>"

text \<open>bob's reply without an attached member, and the guild with an empty member cache.\<close>

definition ex_reply_bare :: message where
  "ex_reply_bare = ex_reply\<lparr>msg_member := None\<rparr>"

definition ex_cold_guild :: "channel list \<Rightarrow> guild" where
  "ex_cold_guild chs =
     \<lparr>guild_roles = [ex_ext, ex_staff], channels = chs,
      members_fetch = ex_members, members_cache = (\<lambda>uid. None)\<rparr>"

definition ex_guild :: "channel list \<Rightarrow> guild" where
  "ex_guild chs =
     \<lparr>guild_roles = [ex_ext, ex_staff], channels = chs,
      members_fetch = ex_members, members_cache = ex_members\<rparr>"

definition ok_sink :: sink where
  "ok_sink = \<lparr>pm_fetch = True, send_ok = (\<lambda>i. True)\<rparr>"

definition failing_sink :: sink where
  "failing_sink = \<lparr>pm_fetch = True, send_ok = (\<lambda>i. False)\<rparr>"

text \<open>Production runs at noon and at 23 h, and a run with \<open>TESTING\<close> on at 23 h.\<close>

definition noon_prod :: "int \<Rightarrow> ctx" where
  "noon_prod t = \<lparr>now = t, hours = 12, TESTING = False\<rparr>"

definition night_prod :: "int \<Rightarrow> ctx" where
  "night_prod t = \<lparr>now = t, hours = 23, TESTING = False\<rparr>"

definition night_test :: "int \<Rightarrow> ctx" where
  "night_test t = \<lparr>now = t, hours = 23, TESTING = True\<rparr>"

section \<open>Lemmas: an invariant of a loop\<close>

lemma fold_inv:
  assumes "\<And>x s. x \<in> set xs \<Longrightarrow> I s \<Longrightarrow> I (f x s)" and "I s"
  shows "I (fold f xs s)"
  using assms by (induction xs arbitrary: s) auto

section \<open>Lemmas: the handler of clientReady\<close>

lemma check_alert_decide:
  "check_alert c S ch msg st =
     (if decide c (existing_of (snd st) (db_key ch msg)) (createdTimestamp msg) = AlertNow
      then (fst st @ [alert_text S ch msg], (snd st)(db_key ch msg \<mapsto> alerted_record (now c)))
      else st)"
  by (simp add: check_alert_def decide_def silenced_def gate_def Let_def)

lemma clientReady_msg_fires:
  "clientReady_msg c g S ch msgs msg st =
     (if fires c g S (ch, msgs, msg) (snd st)
      then (fst st @ [alert_text S ch msg], (snd st)(db_key ch msg \<mapsto> alerted_record (now c)))
      else st)"
  by (auto simp: clientReady_msg_def fires_def monitored_def check_alert_decide
           split: option.splits)

lemma clientReady_visit_fires:
  "clientReady_visit c g S x st =
     (if fires c g S x (snd st)
      then (fst st @ [alert_text S (fst x) (snd (snd x))],
            (snd st)(db_key (fst x) (snd (snd x)) \<mapsto> alerted_record (now c)))
      else st)"
  by (simp add: clientReady_visit_def clientReady_msg_fires)

lemma cooldown_nonneg: "0 \<le> cooldown c"
  by (simp add: cooldown_def TEST_ALERT_COOLDOWN_def PROD_ALERT_COOLDOWN_def)

lemma decide_alerted_record: "decide c (alerted_record (now c)) created \<noteq> AlertNow"
  using cooldown_nonneg [of c]
  by (simp add: decide_def alerted_record_def js_or_def)

lemma silenced_decide: "silenced c r \<Longrightarrow> decide c r created = NoAction"
  by (simp add: decide_def)

lemma silencedI:
  "r ''handled'' = Some (JBool True) \<or> (\<exists>s. r ''snoozedUntil'' = Some (JNum s) \<and> now c < s)
   \<Longrightarrow> silenced c r"
  by (auto simp: silenced_def js_or_def split: option.splits)

lemma staffReplied_iff: "staffReplied g S msgs msg = later_staff_message g S msgs msg"
proof -
  have P: "(if createdTimestamp r \<le> createdTimestamp msg then False
            else (case resolve_member g r of None \<Rightarrow> False | Some rm \<Rightarrow> has_role S rm))
           = (createdTimestamp msg < createdTimestamp r
              \<and> (\<exists>mem. resolve_member g r = Some mem \<and> has_role S mem))" for r
    by (auto split: option.splits)
  show ?thesis
    unfolding staffReplied_def staffReplies_def later_staff_message_def P
    by (simp add: filter_empty_conv)
qed

lemma without_reactions_fields [simp]:
  "createdTimestamp (without_reactions msg) = createdTimestamp msg"
  "author (without_reactions msg) = author msg"
  "msg_id (without_reactions msg) = msg_id msg"
  "url (without_reactions msg) = url msg"
  "msg_member (without_reactions msg) = msg_member msg"
  by (simp_all add: without_reactions_def)

lemma resolve_member_without_reactions [simp]:
  "resolve_member g (without_reactions msg) = resolve_member g msg"
  by (simp add: resolve_member_def split: option.splits)

lemma staffReplied_without_reactions:
  "staffReplied g S (map without_reactions msgs) (without_reactions msg)
     = staffReplied g S msgs msg"
  by (simp add: staffReplied_iff later_staff_message_def)

lemma clientReady_msg_without_reactions:
  "clientReady_msg c g S ch (map without_reactions msgs) (without_reactions msg) st
     = clientReady_msg c g S ch msgs msg st"
proof -
  have "fires c g S (ch, map without_reactions msgs, without_reactions msg) d
          = fires c g S (ch, msgs, msg) d" for d
    by (simp add: fires_def monitored_def db_key_def staffReplied_without_reactions)
  moreover have "alert_text S ch (without_reactions msg) = alert_text S ch msg"
    "db_key ch (without_reactions msg) = db_key ch msg"
    by (simp_all add: alert_text_def db_key_def)
  ultimately show ?thesis by (simp add: clientReady_msg_fires)
qed

lemma clientReady_channel_visits:
  "clientReady_channel c g S ch =
     fold (clientReady_visit c g S)
       (case latest ch of None \<Rightarrow> [] | Some msgs \<Rightarrow> map (\<lambda>m. (ch, msgs, m)) msgs)"
  by (auto simp: clientReady_channel_def clientReady_visit_def fold_map comp_def fun_eq_iff
           split: option.splits)

lemma clientReady_scan_visits:
  "clientReady_scan c g S d = fold (clientReady_visit c g S) (clientReady_visits g) ([], d)"
proof -
  have "fold (clientReady_channel c g S) chs st =
        fold (clientReady_visit c g S)
          (concat (map (\<lambda>ch. case latest ch of None \<Rightarrow> [] | Some msgs \<Rightarrow> map (\<lambda>m. (ch, msgs, m)) msgs) chs)) st"
    for chs st
    by (induction chs arbitrary: st) (simp_all add: clientReady_channel_visits)
  then show ?thesis by (simp add: clientReady_scan_def clientReady_visits_def)
qed

lemma visit_keeps_silenced:
  assumes "silenced c r" and "snd st key = Some r"
  shows "snd (clientReady_visit c g S x st) key = Some r"
proof (cases "fires c g S x (snd st)")
  case False
  then show ?thesis using assms by (simp add: clientReady_visit_fires)
next
  case True
  then have "decide c (existing_of (snd st) (db_key (fst x) (snd (snd x))))
               (createdTimestamp (snd (snd x))) = AlertNow"
    by (simp add: fires_def)
  then have "db_key (fst x) (snd (snd x)) \<noteq> key"
    using assms by (auto simp: existing_of_def silenced_decide)
  then show ?thesis using assms True by (simp add: clientReady_visit_fires)
qed

lemma scan_keeps_silenced:
  assumes "silenced c r" and "d key = Some r"
  shows "snd (clientReady_scan c g S d) key = Some r"
  unfolding clientReady_scan_visits
  by (rule fold_inv [where I = "\<lambda>st. snd st key = Some r"])
     (simp_all add: assms visit_keeps_silenced)

lemma visit_writes:
  "snd (clientReady_visit c g S x st) k = snd st k
   \<or> snd (clientReady_visit c g S x st) k = Some (alerted_record (now c))"
  by (simp add: clientReady_visit_fires)

lemma visits_write:
  "snd (fold (clientReady_visit c g S) xs st) k = snd st k
   \<or> snd (fold (clientReady_visit c g S) xs st) k = Some (alerted_record (now c))"
proof (rule fold_inv [where I = "\<lambda>s. snd s k = snd st k \<or> snd s k = Some (alerted_record (now c))"])
  fix x and s :: "string list \<times> db"
  assume "snd s k = snd st k \<or> snd s k = Some (alerted_record (now c))"
  then show "snd (clientReady_visit c g S x s) k = snd st k
             \<or> snd (clientReady_visit c g S x s) k = Some (alerted_record (now c))"
    using visit_writes [of c g S x s k] by auto
qed simp

lemma fires_cong:
  "d (db_key (fst x) (snd (snd x))) = d' (db_key (fst x) (snd (snd x)))
   \<Longrightarrow> fires c g S x d = fires c g S x d'"
  by (simp add: fires_def existing_of_def)

lemma not_fires_alerted:
  "d (db_key (fst x) (snd (snd x))) = Some (alerted_record (now c)) \<Longrightarrow> \<not> fires c g S x d"
  by (simp add: fires_def existing_of_def decide_alerted_record)

lemma visits_settle:
  "x \<in> set xs \<Longrightarrow> \<not> fires c g S x (snd (fold (clientReady_visit c g S) xs st))"
proof (induction xs arbitrary: st)
  case Nil
  then show ?case by simp
next
  case (Cons y ys)
  let ?st1 = "clientReady_visit c g S y st"
  let ?fin = "fold (clientReady_visit c g S) ys ?st1"
  let ?k = "db_key (fst y) (snd (snd y))"
  show ?case
  proof (cases "x \<in> set ys")
    case True
    then show ?thesis using Cons.IH [of ?st1] by simp
  next
    case False
    then have xy: "x = y" using Cons.prems by simp
    have "snd ?fin ?k = snd ?st1 ?k \<or> snd ?fin ?k = Some (alerted_record (now c))"
      by (rule visits_write)
    then have "\<not> fires c g S y (snd ?fin)"
    proof
      assume "snd ?fin ?k = Some (alerted_record (now c))"
      then show ?thesis by (rule not_fires_alerted)
    next
      assume same: "snd ?fin ?k = snd ?st1 ?k"
      show ?thesis
      proof (cases "fires c g S y (snd st)")
        case True
        then have "snd ?st1 ?k = Some (alerted_record (now c))"
          by (simp add: clientReady_visit_fires)
        with same show ?thesis by (simp add: not_fires_alerted)
      next
        case False
        then have "?st1 = st" by (simp add: clientReady_visit_fires)
        with same have "snd ?fin ?k = snd st ?k" by simp
        then have "fires c g S y (snd ?fin) = fires c g S y (snd st)" by (rule fires_cong)
        with False show ?thesis by simp
      qed
    qed
    with xy show ?thesis by simp
  qed
qed

lemma visits_idle:
  assumes "\<And>x. x \<in> set xs \<Longrightarrow> \<not> fires c g S x (snd st)"
  shows "fold (clientReady_visit c g S) xs st = st"
  by (rule fold_inv [where I = "\<lambda>s. s = st"]) (simp_all add: assms clientReady_visit_fires)

lemma clientReady_scan_twice:
  "clientReady_scan c g S (snd (clientReady_scan c g S d)) = ([], snd (clientReady_scan c g S d))"
proof -
  let ?d1 = "snd (fold (clientReady_visit c g S) (clientReady_visits g) ([], d))"
  have "fold (clientReady_visit c g S) (clientReady_visits g) ([], ?d1) = ([], ?d1)"
    by (rule visits_idle) (simp add: visits_settle)
  then show ?thesis by (simp add: clientReady_scan_visits)
qed

section \<open>Lemmas: the handler of ready\<close>

lemma hasStaffReply_iff: "hasStaffReply g M w msg = staff_reply_seen g M w msg"
proof -
  have P: "(if channelId r \<noteq> channelId msg then False
            else if createdTimestamp r \<le> createdTimestamp msg then False
            else if bot (author r) then False
            else (case (case msg_member r of Some m \<Rightarrow> Some m
                        | None \<Rightarrow> members_cache g (user_id (author r))) of
                    None \<Rightarrow> False | Some rm \<Rightarrow> has_role M rm))
           = (channelId r = channelId msg \<and> createdTimestamp msg < createdTimestamp r
              \<and> \<not> bot (author r)
              \<and> (\<exists>mem. has_role M mem
                    \<and> (msg_member r = Some mem
                       \<or> msg_member r = None \<and> members_cache g (user_id (author r)) = Some mem)))"
    for r :: message
    by (auto split: option.splits)
  show ?thesis
    unfolding hasStaffReply_def staff_reply_seen_def P
    by (simp add: list_ex_iff)
qed

lemma fst_log_io [simp]: "fst (log_io e p) = fst p"
  by (simp add: log_io_def)

lemma snd_log_io [simp]: "snd (log_io e p) = e # snd p"
  by (simp add: log_io_def)

lemma react_users_iff:
  "fst (react_users g M us) = (\<exists>u \<in> set us. staff_reactor g M u)"
  by (induction us) (auto simp: staff_reactor_def split: option.splits)

lemma react_scan_iff:
  "fst (react_scan g M mid rs) =
     (\<exists>rc \<in> set rs. \<exists>us. users_fetch rc = Some us \<and> (\<exists>u \<in> set us. staff_reactor g M u))"
proof (induction rs)
  case Nil
  then show ?case by simp
next
  case (Cons r rs)
  show ?case
  proof (cases "users_fetch r")
    case None
    then show ?thesis using Cons.IH by simp
  next
    case (Some us)
    obtain b tr where ru: "react_users g M us = (b, tr)" by (cases "react_users g M us")
    then have b: "b = (\<exists>u \<in> set us. staff_reactor g M u)"
      using react_users_iff [of g M us] by simp
    show ?thesis
    proof (cases b)
      case True
      then have "react_users g M us = (True, tr)" using ru by simp
      then have "fst (react_scan g M mid (r # rs))" using Some by simp
      moreover have "\<exists>u \<in> set us. staff_reactor g M u" using True b by simp
      ultimately show ?thesis using Some by simp
    next
      case False
      then have "react_users g M us = (False, tr)" using ru by simp
      then have "fst (react_scan g M mid (r # rs)) = fst (react_scan g M mid rs)"
        using Some by simp
      moreover have "\<not> (\<exists>u \<in> set us. staff_reactor g M u)" using False b by simp
      ultimately show ?thesis using Some Cons.IH by simp
    qed
  qed
qed

lemma hasStaffReaction_iff: "fst (hasStaffReaction g M msg) = qualifying_reaction g M msg"
  by (simp add: hasStaffReaction_def qualifying_reaction_def react_scan_iff)

lemma warm_reply_seen:
  assumes "cache_warm g w"
  shows "staff_reply_seen g M w msg = qualifying_reply g M w msg"
proof -
  have "(\<exists>mem. has_role M mem
           \<and> (msg_member r = Some mem
              \<or> msg_member r = None \<and> members_cache g (user_id (author r)) = Some mem))
        = (\<exists>mem. resolve_member g r = Some mem \<and> has_role M mem)"
    if "r \<in> set w" for r
    using assms that by (cases "msg_member r") (auto simp: cache_warm_def resolve_member_def)
  then show ?thesis
    unfolding staff_reply_seen_def qualifying_reply_def by (intro bex_cong refl) simp
qed

lemma isAnswered_iff:
  "isAnswered g M w msg = (staff_reply_seen g M w msg \<or> qualifying_reaction g M msg)"
  by (simp add: isAnswered_def hasStaffReply_iff hasStaffReaction_iff)

lemma ready_msg_unanswered:
  "unansweredMessages (ready_msg g M A ch w msg st) =
     unansweredMessages st @
       (if monitored g msg \<and> \<not> isAnswered g M w msg \<and> msg_id msg \<notin> set A
        then [entry_of ch msg] else [])"
  by (auto simp: ready_msg_def monitored_def Let_def split: option.splits)

lemma ready_msg_answered:
  "answeredMessageIds (ready_msg g M A ch w msg st) =
     answeredMessageIds st @
       (if monitored g msg \<and> isAnswered g M w msg \<and> msg_id msg \<in> set A
        then [msg_id msg] else [])"
  by (auto simp: ready_msg_def monitored_def Let_def split: option.splits)

lemma ready_msg_io:
  "io_log (ready_msg g M A ch w msg st) =
     io_log st @ (if monitored g msg then snd (hasStaffReaction g M msg) else [])"
  by (auto simp: ready_msg_def monitored_def Let_def split: option.splits)

lemma ready_channel_visits:
  "ready_channel g M A ch =
     fold (ready_visit g M A)
       (case window ch of None \<Rightarrow> [] | Some w \<Rightarrow> map (\<lambda>m. (ch, w, m)) w)"
  by (auto simp: ready_channel_def ready_visit_def fold_map comp_def fun_eq_iff
           split: option.splits)

lemma ready_scan_visits:
  "ready_scan g M A =
     fold (ready_visit g M A) (ready_visits g)
       \<lparr>unansweredMessages = [], answeredMessageIds = [], io_log = []\<rparr>"
proof -
  have "fold (ready_channel g M A) chs st =
        fold (ready_visit g M A)
          (concat (map (\<lambda>ch. case window ch of None \<Rightarrow> [] | Some w \<Rightarrow> map (\<lambda>m. (ch, w, m)) w) chs)) st"
    for chs st
    by (induction chs arbitrary: st) (simp_all add: ready_channel_visits)
  then show ?thesis by (simp add: ready_scan_def ready_visits_def)
qed

lemma visits_unanswered:
  "unansweredMessages (fold (ready_visit g M A) xs st) =
     unansweredMessages st @
       concat (map (\<lambda>x. if monitored g (snd (snd x))
                           \<and> \<not> isAnswered g M (fst (snd x)) (snd (snd x))
                           \<and> msg_id (snd (snd x)) \<notin> set A
                        then [entry_of (fst x) (snd (snd x))] else []) xs)"
  by (induction xs arbitrary: st) (simp_all add: ready_visit_def ready_msg_unanswered)

lemma visits_answered:
  "answeredMessageIds (fold (ready_visit g M A) xs st) =
     answeredMessageIds st @
       concat (map (\<lambda>x. if monitored g (snd (snd x))
                           \<and> isAnswered g M (fst (snd x)) (snd (snd x))
                           \<and> msg_id (snd (snd x)) \<in> set A
                        then [msg_id (snd (snd x))] else []) xs)"
  by (induction xs arbitrary: st) (simp_all add: ready_visit_def ready_msg_answered)

lemma scan_unanswered_iff:
  "e \<in> set (unansweredMessages (ready_scan g M A)) \<longleftrightarrow>
     (\<exists>x \<in> set (ready_visits g). e = entry_of (fst x) (snd (snd x))
        \<and> monitored g (snd (snd x)) \<and> \<not> isAnswered g M (fst (snd x)) (snd (snd x))
        \<and> msg_id (snd (snd x)) \<notin> set A)"
  by (auto simp: ready_scan_visits visits_unanswered split: if_splits)

lemma scan_answered_iff:
  "i \<in> set (answeredMessageIds (ready_scan g M A)) \<longleftrightarrow>
     (\<exists>x \<in> set (ready_visits g). i = msg_id (snd (snd x))
        \<and> monitored g (snd (snd x)) \<and> isAnswered g M (fst (snd x)) (snd (snd x))
        \<and> msg_id (snd (snd x)) \<in> set A)"
  by (auto simp: ready_scan_visits visits_answered split: if_splits)

lemma ready_visits_iff:
  "(ch, w, m) \<in> set (ready_visits g) \<longleftrightarrow>
     (ch \<in> set (textChannels g) \<and> window ch = Some w \<and> m \<in> set w)"
  by (force simp: ready_visits_def split: option.splits)

lemma concat_batches_from: "concat (batches_from i xs) = drop i xs"
proof (induction i xs rule: batches_from.induct)
  case (1 i xs)
  show ?case
  proof (cases "i < length xs")
    case True
    have "concat (batches_from i xs) = take 5 (drop i xs) @ concat (batches_from (i + 5) xs)"
      using True by (subst batches_from.simps) simp
    also have "\<dots> = take 5 (drop i xs) @ drop (i + 5) xs"
      using "1.IH" True by simp
    also have "\<dots> = drop i xs"
      by (metis add.commute append_take_drop_id drop_drop)
    finally show ?thesis .
  next
    case False
    then show ?thesis by (subst batches_from.simps) simp
  qed
qed

lemma concat_alertBatches: "concat (alertBatches xs) = xs"
  by (simp add: alertBatches_def concat_batches_from)

lemma send_batches_prefix:
  "\<exists>n \<le> length bs.
      send_batches ok M i bs st =
        (fst st @ map messageId (concat (take n bs)), snd st @ map (batch_text M) (take n bs))
      \<and> (\<forall>j < n. ok (i + j)) \<and> (n < length bs \<longrightarrow> \<not> ok (i + n))"
proof (induction bs arbitrary: i st)
  case Nil
  then show ?case by simp
next
  case (Cons b bs)
  show ?case
  proof (cases "ok i")
    case False
    then show ?thesis by (intro exI [of _ 0]) simp
  next
    case True
    let ?st1 = "(fst st @ map messageId b, snd st @ [batch_text M b])"
    from Cons.IH [of "Suc i" ?st1] obtain n where n: "n \<le> length bs"
      "send_batches ok M (Suc i) bs ?st1 =
        (fst ?st1 @ map messageId (concat (take n bs)), snd ?st1 @ map (batch_text M) (take n bs))"
      "\<forall>j < n. ok (Suc i + j)" "n < length bs \<longrightarrow> \<not> ok (Suc i + n)"
      by blast
    have "\<forall>j < Suc n. ok (i + j)"
    proof (intro allI impI)
      fix j assume "j < Suc n"
      then show "ok (i + j)" using True n(3) by (cases j) auto
    qed
    then show ?thesis using True n by (intro exI [of _ "Suc n"]) simp
  qed
qed

lemma send_batches_none: "\<not> ok i \<Longrightarrow> send_batches ok M i bs st = st"
  by (cases bs) simp_all

lemma scan_page_subset:
  "set (fst (scan_page cutoff batch acc)) \<subseteq>
     set acc \<union> {m \<in> set batch. cutoff \<le> createdTimestamp m}"
proof (induction batch arbitrary: acc)
  case Nil
  then show ?case by simp
next
  case (Cons a batch)
  show ?case
  proof (cases "createdTimestamp a < cutoff")
    case True
    then show ?thesis by simp
  next
    case False
    then show ?thesis using Cons.IH [of "acc @ [a]"] by auto
  qed
qed

lemma scan_page_recent:
  "\<forall>m \<in> set acc. cutoff \<le> createdTimestamp m \<Longrightarrow>
     \<forall>m \<in> set (fst (scan_page cutoff batch acc)). cutoff \<le> createdTimestamp m"
  using scan_page_subset [of cutoff batch acc] by auto

lemma fetch_loop_recent:
  "fetch_loop cutoff ps acc = Some ms \<Longrightarrow> \<forall>m \<in> set acc. cutoff \<le> createdTimestamp m \<Longrightarrow>
     \<forall>m \<in> set ms. cutoff \<le> createdTimestamp m"
proof (induction ps arbitrary: acc)
  case Nil
  then show ?case by simp
next
  case (Cons p ps)
  show ?case
  proof (cases p)
    case None
    then show ?thesis using Cons.prems by simp
  next
    case (Some batch)
    obtain acc' b where sp: "scan_page cutoff batch acc = (acc', b)"
      by (cases "scan_page cutoff batch acc")
    have acc': "\<forall>m \<in> set acc'. cutoff \<le> createdTimestamp m"
      using scan_page_recent [of acc cutoff batch] Cons.prems(2) sp by simp
    show ?thesis
    proof (cases "b \<or> length batch < 100 \<or> createdTimestamp (last batch) < cutoff")
      case True
      then have "ms = acc'"
        using Cons.prems(1) sp Some by (auto split: if_splits bool.splits)
      with acc' show ?thesis by simp
    next
      case False
      then have "fetch_loop cutoff ps acc' = Some ms" using Cons.prems(1) sp Some by simp
      then show ?thesis using acc' by (rule Cons.IH)
    qed
  qed
qed

lemma window_props:
  assumes "window ch = Some w"
  shows "sorted (map createdTimestamp w)"
    and "\<forall>m \<in> set w. clock ch - timeWindow \<le> createdTimestamp m"
    and "\<exists>fetched. fetchRecentMessages ch = Some fetched \<and> mset w = mset fetched"
proof -
  from assms obtain fetched where f: "fetchRecentMessages ch = Some fetched"
    and w: "w = sort_key createdTimestamp fetched"
    by (auto simp: window_def)
  show "sorted (map createdTimestamp w)" using w by simp
  have "\<forall>m \<in> set fetched. clock ch - timeWindow \<le> createdTimestamp m"
    using f fetch_loop_recent [of "clock ch - timeWindow" "pages ch" "[]" fetched]
    by (simp add: fetchRecentMessages_def)
  then show "\<forall>m \<in> set w. clock ch - timeWindow \<le> createdTimestamp m" using w by simp
  show "\<exists>fetched. fetchRecentMessages ch = Some fetched \<and> mset w = mset fetched"
    using f w by simp
qed

lemmas ex_defs = ex_ext_def ex_staff_def ex_ann_def ex_bob_def ex_members_def T0_def minute_def
  ex_question_def ex_reply_def ex_reply_bare_def ex_cold_guild_def ex_thumbs_def ex_question_reacted_def ex_followup_def ex_channel_def ex_guild_def ok_sink_def
  failing_sink_def noon_prod_def night_prod_def night_test_def

lemmas policy_defs = decide_def silenced_def gate_def isOld_def nightCheck_def isNight_def
  waitTime_def cooldown_def js_or_def TEST_WAIT_TIME_def TEST_ALERT_COOLDOWN_def
  PROD_WAIT_TIME_def PROD_ALERT_COOLDOWN_def

lemmas run_defs = clientReady_def clientReady_scan_def clientReady_channel_def
  clientReady_msg_def check_alert_def staffReplied_def staffReplies_def resolve_member_def
  hasClientRole_def has_role_def is_ext_def endsWith_def clientRoles_def textChannels_def
  existing_of_def db_key_def alerted_record_def alert_text_def


section \<open>Properties of the policy (second entry point)\<close>

text \<open>
  C8. A record with \<^verbatim>\<open>handled = true\<close>, or with \<^verbatim>\<open>snoozedUntil\<close> strictly greater than
  \<^verbatim>\<open>now\<close>, is silenced whatever the age of the message: the decision is \<open>NoAction\<close>,
  the visit of a message with that key leaves the queue of alerts and the store as they
  are, and at the end of the run the store still holds the record unchanged, so no alert
  was recorded for the key (an alert overwrites the record with one that is not handled
  and has no \<^verbatim>\<open>snoozedUntil\<close>).
\<close>

theorem C8_silenced_never_alerts:
  assumes "r ''handled'' = Some (JBool True)
           \<or> (\<exists>s. r ''snoozedUntil'' = Some (JNum s) \<and> now c < s)"
  shows "decide c r created = NoAction
       \<and> (d (db_key ch msg) = Some r \<longrightarrow>
            clientReady_msg c g S ch msgs msg (al, d) = (al, d))
       \<and> (d key = Some r \<longrightarrow> saved_db (clientReady c g S snk d) key = Some r)"
proof -
  have sil: "silenced c r" using assms by (rule silencedI)
  have 1: "decide c r created = NoAction" for created using sil by (rule silenced_decide)
  have 2: "clientReady_msg c g S ch msgs msg (al, d) = (al, d)" if "d (db_key ch msg) = Some r"
    using that 1 by (simp add: clientReady_msg_fires fires_def existing_of_def)
  have 3: "saved_db (clientReady c g S snk d) key = Some r" if "d key = Some r"
    using that sil by (simp add: clientReady_def Let_def scan_keeps_silenced)
  from 1 2 3 show ?thesis by blast
qed

theorem C8_witness:
  "decide (noon_prod (T0 + 50 * minute)) [''snoozedUntil'' \<mapsto> JNum (T0 + 60 * minute)] T0
     = NoAction
   \<and> clientReady_msg (noon_prod (T0 + 50 * minute)) (ex_guild [ex_channel 0 [ex_question]])
       ''20'' (ex_channel 0 [ex_question]) [ex_question] ex_question
       ([], [''7-100'' \<mapsto> [''snoozedUntil'' \<mapsto> JNum (T0 + 60 * minute)]])
     = ([], [''7-100'' \<mapsto> [''snoozedUntil'' \<mapsto> JNum (T0 + 60 * minute)]])
   \<and> saved_db (clientReady (noon_prod (T0 + 50 * minute))
         (ex_guild [ex_channel 0 [ex_question]]) ''20'' ok_sink
         [''7-100'' \<mapsto> [''snoozedUntil'' \<mapsto> JNum (T0 + 60 * minute)]]) ''7-100''
     = Some [''snoozedUntil'' \<mapsto> JNum (T0 + 60 * minute)]"
  using C8_silenced_never_alerts
    [where r = "[''snoozedUntil'' \<mapsto> JNum (T0 + 60 * minute)]"
       and c = "noon_prod (T0 + 50 * minute)" and created = T0
       and d = "[''7-100'' \<mapsto> [''snoozedUntil'' \<mapsto> JNum (T0 + 60 * minute)]]"
       and ch = "ex_channel 0 [ex_question]" and msg = ex_question and key = "''7-100''"
       and g = "ex_guild [ex_channel 0 [ex_question]]" and S = "''20''"
       and msgs = "[ex_question]" and al = "[]" and snk = ok_sink]
  by (simp add: noon_prod_def minute_def db_key_def ex_channel_def ex_question_def)

text \<open>
  C10. The record that an alert stores has exactly the two fields \<^verbatim>\<open>lastAlert\<close> (the
  \<^verbatim>\<open>now\<close> of the run) and \<^verbatim>\<open>handled\<close> (false): no \<^verbatim>\<open>snoozedUntil\<close>, no
  \<^verbatim>\<open>alerted\<close>, nothing of the record that was there before. The visit of a message
  either changes nothing or queues one alert and replaces the record of its key by that
  record; and at the end of a run every key holds either the record it had at the start
  or that record.
\<close>

theorem C10_record_replaced:
  "alerted_record t = (\<lambda>f. if f = ''lastAlert'' then Some (JNum t)
                            else if f = ''handled'' then Some (JBool False) else None)
   \<and> (clientReady_msg c g S ch msgs msg (al, d) = (al, d)
      \<or> clientReady_msg c g S ch msgs msg (al, d)
          = (al @ [alert_text S ch msg], d(db_key ch msg \<mapsto> alerted_record (now c))))
   \<and> (saved_db (clientReady c g S snk d) key = d key
      \<or> saved_db (clientReady c g S snk d) key = Some (alerted_record (now c)))"
proof -
  have 1: "alerted_record t = (\<lambda>f. if f = ''lastAlert'' then Some (JNum t)
                            else if f = ''handled'' then Some (JBool False) else None)"
    by (auto simp: alerted_record_def fun_eq_iff)
  have 2: "clientReady_msg c g S ch msgs msg (al, d) = (al, d)
      \<or> clientReady_msg c g S ch msgs msg (al, d)
          = (al @ [alert_text S ch msg], d(db_key ch msg \<mapsto> alerted_record (now c)))"
    by (simp add: clientReady_msg_fires)
  have 3: "saved_db (clientReady c g S snk d) key = d key
      \<or> saved_db (clientReady c g S snk d) key = Some (alerted_record (now c))"
    using visits_write [of c g S "clientReady_visits g" "([], d)" key]
    by (auto simp: clientReady_def Let_def clientReady_scan_visits)
  from 1 2 3 show ?thesis by blast
qed

text \<open>
  An instance: the record of ann's question holds a snooze that ended before the run and
  an alert of two hours ago. The run alerts again, and the stored record has lost the
  snooze.
\<close>

theorem C10_witness:
  "[''snoozedUntil'' \<mapsto> JNum (T0 + minute), ''lastAlert'' \<mapsto> JNum (T0 - 120 * minute)]
     ''snoozedUntil'' = Some (JNum (T0 + minute))
   \<and> clientReady_msg (noon_prod (T0 + 50 * minute)) (ex_guild [ex_channel 0 [ex_question]])
       ''20'' (ex_channel 0 [ex_question]) [ex_question] ex_question
       ([], [''7-100'' \<mapsto>
          [''snoozedUntil'' \<mapsto> JNum (T0 + minute), ''lastAlert'' \<mapsto> JNum (T0 - 120 * minute)]])
     \<noteq> ([], [''7-100'' \<mapsto>
          [''snoozedUntil'' \<mapsto> JNum (T0 + minute), ''lastAlert'' \<mapsto> JNum (T0 - 120 * minute)]])
   \<and> snd (clientReady_msg (noon_prod (T0 + 50 * minute)) (ex_guild [ex_channel 0 [ex_question]])
       ''20'' (ex_channel 0 [ex_question]) [ex_question] ex_question
       ([], [''7-100'' \<mapsto>
          [''snoozedUntil'' \<mapsto> JNum (T0 + minute), ''lastAlert'' \<mapsto> JNum (T0 - 120 * minute)]]))
       ''7-100''
     = Some (alerted_record (T0 + 50 * minute))
   \<and> alerted_record (T0 + 50 * minute) ''snoozedUntil'' = None
   \<and> alerted_record (T0 + 50 * minute) ''alerted'' = None"
proof -
  let ?d = "[''7-100'' \<mapsto>
          [''snoozedUntil'' \<mapsto> JNum (T0 + minute), ''lastAlert'' \<mapsto> JNum (T0 - 120 * minute)]]"
  let ?run = "clientReady_msg (noon_prod (T0 + 50 * minute)) (ex_guild [ex_channel 0 [ex_question]])
       ''20'' (ex_channel 0 [ex_question]) [ex_question] ex_question ([], ?d)"
  have changed: "fst ?run \<noteq> []"
    by (simp add: ex_defs policy_defs run_defs Let_def)
  from C10_record_replaced [of "T0 + 50 * minute" "noon_prod (T0 + 50 * minute)"
      "ex_guild [ex_channel 0 [ex_question]]" "''20''" "ex_channel 0 [ex_question]"
      "[ex_question]" ex_question "[]" ?d ok_sink "''7-100''"]
  have rec: "alerted_record (T0 + 50 * minute) =
          (\<lambda>f. if f = ''lastAlert'' then Some (JNum (T0 + 50 * minute))
                else if f = ''handled'' then Some (JBool False) else None)"
    and alt: "?run = ([], ?d) \<or> ?run =
          ([] @ [alert_text ''20'' (ex_channel 0 [ex_question]) ex_question],
           ?d(db_key (ex_channel 0 [ex_question]) ex_question
                \<mapsto> alerted_record (now (noon_prod (T0 + 50 * minute)))))"
    by blast+
  from alt changed have run: "?run =
          ([] @ [alert_text ''20'' (ex_channel 0 [ex_question]) ex_question],
           ?d(db_key (ex_channel 0 [ex_question]) ex_question
                \<mapsto> alerted_record (now (noon_prod (T0 + 50 * minute)))))"
    by auto
  have key: "db_key (ex_channel 0 [ex_question]) ex_question = ''7-100''"
    by (simp add: db_key_def ex_channel_def ex_question_def)
  have 1: "snd ?run ''7-100'' = Some (alerted_record (T0 + 50 * minute))"
    unfolding run key by (simp add: noon_prod_def)
  have 2: "?run \<noteq> ([], ?d)" using changed by auto
  have 3: "alerted_record (T0 + 50 * minute) ''snoozedUntil'' = None"
    "alerted_record (T0 + 50 * minute) ''alerted'' = None"
    by (simp_all add: rec)
  from 1 2 3 show ?thesis by simp
qed

text \<open>
  C2, as the code has it. A candidate passes the gate when its age exceeds
  \<^verbatim>\<open>waitTime\<close>, or when the run is a production run in the night hours (before 8 h or
  from 21 h) and the age is below twelve hours. Outside the night hours, and at any hour
  with \<open>TESTING\<close> on, the age alone decides: an age of at most \<^verbatim>\<open>waitTime\<close> gives
  \<open>NoAction\<close> and the handler changes nothing. In a production run in the night hours
  every age passes the gate, and a message without a record is alerted whatever its age
  (for a clock reading later than the cooldown after the epoch).
\<close>

theorem C2_gate:
  "gate c age = (age > waitTime c \<or> (\<not> TESTING c \<and> isNight c \<and> age < 12 * 60 * 60 * 1000))
   \<and> (\<not> isNight c \<or> TESTING c \<longrightarrow> gate c age = (age > waitTime c))
   \<and> ((\<not> isNight c \<or> TESTING c) \<and> now c - createdTimestamp msg \<le> waitTime c \<longrightarrow>
        decide c r (createdTimestamp msg) = NoAction
        \<and> check_alert c S ch msg (al, d) = (al, d))
   \<and> (\<not> TESTING c \<and> isNight c \<longrightarrow> gate c age)
   \<and> (\<not> TESTING c \<and> isNight c \<and> d (db_key ch msg) = None \<and> cooldown c < now c \<longrightarrow>
        check_alert c S ch msg (al, d)
          = (al @ [alert_text S ch msg], d(db_key ch msg \<mapsto> alerted_record (now c))))"
proof -
  have 1: "gate c a
      = (a > waitTime c \<or> (\<not> TESTING c \<and> isNight c \<and> a < 12 * 60 * 60 * 1000))" for a
    by (simp add: gate_def isOld_def nightCheck_def)
  have 2: "gate c age = (age > waitTime c)" if "\<not> isNight c \<or> TESTING c"
    using that by (auto simp: 1)
  have 3: "decide c r (createdTimestamp msg) = NoAction
        \<and> check_alert c S ch msg (al, d) = (al, d)"
    if "(\<not> isNight c \<or> TESTING c) \<and> now c - createdTimestamp msg \<le> waitTime c"
  proof -
    have "\<not> gate c (now c - createdTimestamp msg)" using that by (auto simp: 1)
    then show ?thesis by (simp add: check_alert_decide decide_def)
  qed
  have 4: "gate c a" if "\<not> TESTING c \<and> isNight c" for a
    using that by (auto simp: 1 waitTime_def PROD_WAIT_TIME_def)
  have 5: "check_alert c S ch msg (al, d)
          = (al @ [alert_text S ch msg], d(db_key ch msg \<mapsto> alerted_record (now c)))"
    if "\<not> TESTING c \<and> isNight c \<and> d (db_key ch msg) = None \<and> cooldown c < now c"
  proof -
    have "0 \<le> now c" using that cooldown_nonneg [of c] by simp
    then have "\<not> silenced c (existing_of d (db_key ch msg))"
      using that by (simp add: silenced_def existing_of_def js_or_def)
    moreover have "gate c (now c - createdTimestamp msg)" using that by (intro 4) simp
    ultimately show ?thesis
      using that by (simp add: check_alert_decide decide_def existing_of_def js_or_def)
  qed
  from 1 2 3 4 5 show ?thesis by blast
qed

theorem C2_witness:
  "gate (noon_prod (T0 + minute)) minute = False
   \<and> gate (night_test (T0 + minute)) minute = False
   \<and> decide (noon_prod (T0 + minute)) Map.empty T0 = NoAction
   \<and> decide (night_test (T0 + minute)) Map.empty T0 = NoAction
   \<and> gate (night_prod (T0 + minute)) minute
   \<and> check_alert (night_prod (T0 + minute)) ''20'' (ex_channel 0 []) ex_question ([], Map.empty)
      = ([alert_text ''20'' (ex_channel 0 []) ex_question],
         [''7-100'' \<mapsto> alerted_record (T0 + minute)])"
proof -
  have created: "createdTimestamp ex_question = T0" by (simp add: ex_question_def)
  have key: "db_key (ex_channel 0 []) ex_question = ''7-100''"
    by (simp add: db_key_def ex_channel_def ex_question_def)
  note noon = C2_gate [where c = "noon_prod (T0 + minute)" and age = minute
      and msg = ex_question and r = Map.empty]
  note test = C2_gate [where c = "night_test (T0 + minute)" and age = minute
      and msg = ex_question and r = Map.empty]
  note night = C2_gate [where c = "night_prod (T0 + minute)" and age = minute
      and msg = ex_question and S = "''20''" and ch = "ex_channel 0 []" and al = "[]"
      and d = Map.empty]
  have a: "gate (noon_prod (T0 + minute)) minute = False
     \<and> decide (noon_prod (T0 + minute)) Map.empty T0 = NoAction"
    using noon
    by (simp add: created noon_prod_def minute_def isNight_def waitTime_def PROD_WAIT_TIME_def)
  have b: "gate (night_test (T0 + minute)) minute = False
     \<and> decide (night_test (T0 + minute)) Map.empty T0 = NoAction"
    using test
    by (simp add: created night_test_def minute_def isNight_def waitTime_def TEST_WAIT_TIME_def)
  have c: "gate (night_prod (T0 + minute)) minute
     \<and> check_alert (night_prod (T0 + minute)) ''20'' (ex_channel 0 []) ex_question ([], Map.empty)
      = ([alert_text ''20'' (ex_channel 0 []) ex_question],
         [''7-100'' \<mapsto> alerted_record (T0 + minute)])"
    using night
    by (simp add: key night_prod_def minute_def T0_def isNight_def cooldown_def
          PROD_ALERT_COOLDOWN_def)
  from a b c show ?thesis by simp
qed

text \<open>
  The property as stated fails in a production run at 23 h: ann's question is one minute old, below
  \<^verbatim>\<open>waitTime\<close> (45 minutes) and below twelve hours, and it is alerted.
\<close>

theorem C2_counterexample:
  "isNight (night_prod (T0 + minute))
   \<and> now (night_prod (T0 + minute)) - T0 < waitTime (night_prod (T0 + minute))
   \<and> now (night_prod (T0 + minute)) - T0 < 12 * 60 * 60 * 1000
   \<and> decide (night_prod (T0 + minute)) Map.empty T0 = AlertNow
   \<and> alertMessages (clientReady (night_prod (T0 + minute))
         (ex_guild [ex_channel 0 [ex_question]]) ''20'' ok_sink Map.empty)
     = [alert_text ''20'' (ex_channel 0 [ex_question]) ex_question]"
  by (simp add: ex_defs policy_defs run_defs Let_def)

lemmas ready_defs = ready_def ready_scan_def ready_channel_def ready_msg_def window_def
  fetchRecentMessages_def timeWindow_def isAnswered_def hasStaffReply_def hasStaffReaction_def
  entry_of_def alertBatches_def batches_from.simps batch_text_def alert_line_def
  resolve_member_def hasClientRole_def has_role_def is_ext_def endsWith_def clientRoles_def
  textChannels_def log_io_def

section \<open>Lemmas: runs of the two handlers\<close>

lemma alertBatches_Nil: "alertBatches [] = []"
  by (simp add: alertBatches_def batches_from.simps)

lemma scanned_ready:
  "scanned (ready g M snk A) =
     (if clientRoles g = []
      then \<lparr>unansweredMessages = [], answeredMessageIds = [], io_log = []\<rparr>
      else ready_scan g M A)"
  by (simp add: ready_def Let_def)

lemma filter_answered:
  "(if S \<noteq> [] then filter (\<lambda>i. i \<notin> set S) A else A) = filter (\<lambda>i. i \<notin> set S) A"
  by simp

lemma ready_prefix:
  "\<exists>n \<le> length (alertBatches (unansweredMessages (scanned (ready g M snk A)))).
      saved (ready g M snk A) =
        filter (\<lambda>i. i \<notin> set (answeredMessageIds (scanned (ready g M snk A)))) A
          @ map messageId
              (concat (take n (alertBatches (unansweredMessages (scanned (ready g M snk A))))))
      \<and> sent (ready g M snk A) =
          map (batch_text M)
            (take n (alertBatches (unansweredMessages (scanned (ready g M snk A)))))
      \<and> (\<forall>j < n. send_ok snk j)
      \<and> (n < length (alertBatches (unansweredMessages (scanned (ready g M snk A))))
           \<and> pm_fetch snk \<longrightarrow> \<not> send_ok snk n)"
proof (cases "clientRoles g = []")
  case True
  then show ?thesis by (simp add: ready_def alertBatches_Nil)
next
  case False
  let ?st = "ready_scan g M A"
  let ?db1 = "filter (\<lambda>i. i \<notin> set (answeredMessageIds ?st)) A"
  let ?bs = "alertBatches (unansweredMessages ?st)"
  show ?thesis
  proof (cases "unansweredMessages ?st \<noteq> [] \<and> pm_fetch snk")
    case True
    from send_batches_prefix [of ?bs "send_ok snk" M 0 "(?db1, [])"]
    obtain n where n: "n \<le> length ?bs"
      "send_batches (send_ok snk) M 0 ?bs (?db1, []) =
         (?db1 @ map messageId (concat (take n ?bs)), map (batch_text M) (take n ?bs))"
      "\<forall>j < n. send_ok snk j" "n < length ?bs \<longrightarrow> \<not> send_ok snk n"
      by auto
    have "saved (ready g M snk A) = ?db1 @ map messageId (concat (take n ?bs))"
      and "sent (ready g M snk A) = map (batch_text M) (take n ?bs)"
      using False True n(2) by (simp_all add: ready_def Let_def filter_answered)
    then show ?thesis using n False by (intro exI [of _ n]) (simp add: scanned_ready)
  next
    case no: False
    have "saved (ready g M snk A) = ?db1" and "sent (ready g M snk A) = []"
      using False no by (auto simp: ready_def Let_def filter_answered)
    moreover have "0 < length ?bs \<and> pm_fetch snk \<longrightarrow> \<not> send_ok snk 0"
      using no by (auto simp: alertBatches_Nil)
    ultimately show ?thesis using False by (intro exI [of _ 0]) (simp add: scanned_ready)
  qed
qed

lemma ready_saved_subset:
  "set (saved (ready g M snk A)) \<subseteq>
     {i \<in> set A. i \<notin> set (answeredMessageIds (scanned (ready g M snk A)))}
     \<union> messageId ` set (unansweredMessages (scanned (ready g M snk A)))"
proof -
  let ?U = "unansweredMessages (scanned (ready g M snk A))"
  obtain n where n: "saved (ready g M snk A) =
        filter (\<lambda>i. i \<notin> set (answeredMessageIds (scanned (ready g M snk A)))) A
          @ map messageId (concat (take n (alertBatches ?U)))"
    using ready_prefix [of g M snk A] by blast
  have "set (concat (take n (alertBatches ?U))) \<subseteq> set (concat (alertBatches ?U))"
    by (auto dest: in_set_takeD)
  then have "set (concat (take n (alertBatches ?U))) \<subseteq> set ?U"
    by (simp add: concat_alertBatches)
  then show ?thesis unfolding n by auto
qed

lemma ready_saved_all_sent:
  assumes "pm_fetch snk" and "\<forall>i. send_ok snk i"
  shows "saved (ready g M snk A) =
           filter (\<lambda>i. i \<notin> set (answeredMessageIds (scanned (ready g M snk A)))) A
             @ map messageId (unansweredMessages (scanned (ready g M snk A)))"
proof -
  let ?U = "unansweredMessages (scanned (ready g M snk A))"
  obtain n where n: "n \<le> length (alertBatches ?U)"
    "saved (ready g M snk A) =
        filter (\<lambda>i. i \<notin> set (answeredMessageIds (scanned (ready g M snk A)))) A
          @ map messageId (concat (take n (alertBatches ?U)))"
    "n < length (alertBatches ?U) \<and> pm_fetch snk \<longrightarrow> \<not> send_ok snk n"
    using ready_prefix [of g M snk A] by blast
  have "n = length (alertBatches ?U)" using n(1,3) assms by auto
  then show ?thesis using n(2) by (simp add: concat_alertBatches)
qed

lemma queued_not_tracked:
  "e \<in> set (unansweredMessages (scanned (ready g M snk A))) \<Longrightarrow> messageId e \<notin> set A"
  by (auto simp: scanned_ready scan_unanswered_iff entry_of_def split: if_splits)

lemma ready_rescan_idle:
  assumes ok: "pm_fetch snk" "\<forall>i. send_ok snk i"
      and dist: "distinct (observed_ids g)"
  shows "unansweredMessages (scanned (ready g M snk' (saved (ready g M snk A)))) = []"
proof (cases "clientRoles g = []")
  case True
  then show ?thesis by (simp add: scanned_ready)
next
  case False
  let ?A1 = "saved (ready g M snk A)"
  have A1: "?A1 = filter (\<lambda>i. i \<notin> set (answeredMessageIds (ready_scan g M A))) A
                   @ map messageId (unansweredMessages (ready_scan g M A))"
    using ready_saved_all_sent [OF ok, of g M A] False by (simp add: scanned_ready)
  have inj: "inj_on (\<lambda>x. msg_id (snd (snd x))) (set (ready_visits g))"
    using dist by (simp add: observed_ids_def distinct_map)
  have "e \<notin> set (unansweredMessages (ready_scan g M ?A1))" for e
  proof
    assume "e \<in> set (unansweredMessages (ready_scan g M ?A1))"
    then obtain x where x: "x \<in> set (ready_visits g)" "monitored g (snd (snd x))"
      "\<not> isAnswered g M (fst (snd x)) (snd (snd x))" "msg_id (snd (snd x)) \<notin> set ?A1"
      by (auto simp: scan_unanswered_iff)
    show False
    proof (cases "msg_id (snd (snd x)) \<in> set A")
      case False
      then have "entry_of (fst x) (snd (snd x)) \<in> set (unansweredMessages (ready_scan g M A))"
        using x by (auto simp: scan_unanswered_iff)
      then have "messageId (entry_of (fst x) (snd (snd x)))
                   \<in> set (map messageId (unansweredMessages (ready_scan g M A)))"
        by (simp only: set_map) (rule imageI)
      then show False using x(4) by (simp add: A1 entry_of_def)
    next
      case True
      then have "msg_id (snd (snd x)) \<in> set (answeredMessageIds (ready_scan g M A))"
        using x(4) by (simp add: A1)
      then obtain y where y: "y \<in> set (ready_visits g)"
        "msg_id (snd (snd x)) = msg_id (snd (snd y))"
        "isAnswered g M (fst (snd y)) (snd (snd y))"
        by (auto simp: scan_answered_iff)
      from inj x(1) y(1,2) have "x = y" by (auto dest: inj_onD)
      with x(3) y(3) show False by simp
    qed
  qed
  then have "unansweredMessages (ready_scan g M ?A1) = []"
    by (cases "unansweredMessages (ready_scan g M ?A1)") auto
  then show ?thesis using False by (simp add: scanned_ready)
qed

lemma ready_nothing_queued:
  "unansweredMessages (scanned (ready g M snk A)) = [] \<Longrightarrow> sent (ready g M snk A) = []"
  by (auto simp: ready_def Let_def split: if_splits)

lemma clientReady_twice:
  "alertMessages (clientReady c g S snk' (saved_db (clientReady c g S snk d))) = []
   \<and> saved_db (clientReady c g S snk' (saved_db (clientReady c g S snk d)))
       = saved_db (clientReady c g S snk d)"
  by (simp add: clientReady_def Let_def clientReady_scan_twice)

section \<open>The cooldown\<close>

text \<open>
  C4, as the code has it. In the handler of \<^verbatim>\<open>clientReady\<close>, for a candidate that is
  not silenced and has passed the gate of age and night hours: with a stored
  \<^verbatim>\<open>lastAlert = t\<close>, the decision is \<open>Suppress\<close> and nothing changes when
  \<^verbatim>\<open>now - t <= cooldown\<close>, and it is \<open>AlertNow\<close> (an alert is queued and the record is
  replaced) when \<^verbatim>\<open>now - t > cooldown\<close>. Without a stored \<^verbatim>\<open>lastAlert\<close> the handler
  reads 0, the epoch, so for every clock reading later than the cooldown after the epoch
  the decision is \<open>AlertNow\<close>. The handler of \<^verbatim>\<open>ready\<close> keeps no time of the last alert
  and has no cooldown: the first evaluation of an unanswered message whose id is not
  tracked queues it, and a message whose id is tracked is not queued, however long ago
  it was alerted.
\<close>

theorem C4_cooldown:
  assumes "r = existing_of d (db_key ch msg)"
      and "\<not> silenced c r"
      and "gate c (now c - createdTimestamp msg)"
  shows "(r ''lastAlert'' = Some (JNum t) \<and> now c - t \<le> cooldown c \<longrightarrow>
            decide c r (createdTimestamp msg) = Suppress
            \<and> check_alert c S ch msg (al, d) = (al, d))
       \<and> (r ''lastAlert'' = Some (JNum t) \<and> now c - t > cooldown c \<longrightarrow>
            decide c r (createdTimestamp msg) = AlertNow
            \<and> check_alert c S ch msg (al, d)
                = (al @ [alert_text S ch msg], d(db_key ch msg \<mapsto> alerted_record (now c))))
       \<and> (r ''lastAlert'' = None \<and> cooldown c < now c \<longrightarrow>
            decide c r (createdTimestamp msg) = AlertNow
            \<and> check_alert c S ch msg (al, d)
                = (al @ [alert_text S ch msg], d(db_key ch msg \<mapsto> alerted_record (now c))))
       \<and> (monitored g m \<and> \<not> isAnswered g M w m \<and> msg_id m \<notin> set A \<longrightarrow>
            unansweredMessages (ready_msg g M A ch' w m st)
              = unansweredMessages st @ [entry_of ch' m])
       \<and> (msg_id m \<in> set A \<longrightarrow>
            unansweredMessages (ready_msg g M A ch' w m st) = unansweredMessages st)
       \<and> (e \<in> set (unansweredMessages (scanned (ready g M snk A))) \<longrightarrow>
            messageId e \<notin> set A)"
proof -
  have 1: "(r ''lastAlert'' = Some (JNum t) \<and> now c - t \<le> cooldown c \<longrightarrow>
            decide c r (createdTimestamp msg) = Suppress
            \<and> check_alert c S ch msg (al, d) = (al, d))
       \<and> (r ''lastAlert'' = Some (JNum t) \<and> now c - t > cooldown c \<longrightarrow>
            decide c r (createdTimestamp msg) = AlertNow
            \<and> check_alert c S ch msg (al, d)
                = (al @ [alert_text S ch msg], d(db_key ch msg \<mapsto> alerted_record (now c))))
       \<and> (r ''lastAlert'' = None \<and> cooldown c < now c \<longrightarrow>
            decide c r (createdTimestamp msg) = AlertNow
            \<and> check_alert c S ch msg (al, d)
                = (al @ [alert_text S ch msg], d(db_key ch msg \<mapsto> alerted_record (now c))))"
    using assms by (auto simp: check_alert_decide decide_def js_or_def)
  have 2: "unansweredMessages (ready_msg g M A ch' w m st)
              = unansweredMessages st @ [entry_of ch' m]"
    if "monitored g m \<and> \<not> isAnswered g M w m \<and> msg_id m \<notin> set A"
    using that by (simp add: ready_msg_unanswered)
  have 3: "unansweredMessages (ready_msg g M A ch' w m st) = unansweredMessages st"
    if "msg_id m \<in> set A"
    using that by (simp add: ready_msg_unanswered)
  have 4: "messageId e \<notin> set A"
    if "e \<in> set (unansweredMessages (scanned (ready g M snk A)))"
    using that by (rule queued_not_tracked)
  from 1 2 3 4 show ?thesis by blast
qed

text \<open>
  The example of the specification, in production at noon: ann's question of \<open>T0\<close> is
  alerted at \<open>T0 + 50 min\<close>; ten minutes later the stored alert suppresses it; 35 minutes
  after the alert it is alerted again.
\<close>

theorem C4_witness:
  "decide (noon_prod (T0 + 50 * minute)) Map.empty T0 = AlertNow
   \<and> check_alert (noon_prod (T0 + 50 * minute)) ''20'' (ex_channel 0 []) ex_question
        ([], Map.empty)
      = ([alert_text ''20'' (ex_channel 0 []) ex_question],
         [''7-100'' \<mapsto> alerted_record (T0 + 50 * minute)])
   \<and> decide (noon_prod (T0 + 60 * minute)) (alerted_record (T0 + 50 * minute)) T0 = Suppress
   \<and> check_alert (noon_prod (T0 + 60 * minute)) ''20'' (ex_channel 0 []) ex_question
        ([], [''7-100'' \<mapsto> alerted_record (T0 + 50 * minute)])
      = ([], [''7-100'' \<mapsto> alerted_record (T0 + 50 * minute)])
   \<and> decide (noon_prod (T0 + 85 * minute)) (alerted_record (T0 + 50 * minute)) T0 = AlertNow"
proof -
  have key: "db_key (ex_channel 0 []) ex_question = ''7-100''"
    by (simp add: db_key_def ex_channel_def ex_question_def)
  have created: "createdTimestamp ex_question = T0" by (simp add: ex_question_def)
  have first: "decide (noon_prod (T0 + 50 * minute)) Map.empty T0 = AlertNow
     \<and> check_alert (noon_prod (T0 + 50 * minute)) ''20'' (ex_channel 0 []) ex_question
        ([], Map.empty)
      = ([alert_text ''20'' (ex_channel 0 []) ex_question],
         [''7-100'' \<mapsto> alerted_record (T0 + 50 * minute)])"
    using C4_cooldown [where r = Map.empty and d = Map.empty and ch = "ex_channel 0 []"
        and msg = ex_question and c = "noon_prod (T0 + 50 * minute)" and S = "''20''"
        and al = "[]" and t = 0]
    by (simp add: key created existing_of_def noon_prod_def T0_def minute_def policy_defs)
  have second: "decide (noon_prod (T0 + 60 * minute)) (alerted_record (T0 + 50 * minute)) T0
        = Suppress
     \<and> check_alert (noon_prod (T0 + 60 * minute)) ''20'' (ex_channel 0 []) ex_question
        ([], [''7-100'' \<mapsto> alerted_record (T0 + 50 * minute)])
      = ([], [''7-100'' \<mapsto> alerted_record (T0 + 50 * minute)])"
    using C4_cooldown [where r = "alerted_record (T0 + 50 * minute)"
        and d = "[''7-100'' \<mapsto> alerted_record (T0 + 50 * minute)]"
        and ch = "ex_channel 0 []" and msg = ex_question
        and c = "noon_prod (T0 + 60 * minute)" and S = "''20''" and al = "[]"
        and t = "T0 + 50 * minute"]
    by (simp add: key created existing_of_def noon_prod_def T0_def minute_def policy_defs
          alerted_record_def)
  have third: "decide (noon_prod (T0 + 85 * minute)) (alerted_record (T0 + 50 * minute)) T0
        = AlertNow"
    using C4_cooldown [where r = "alerted_record (T0 + 50 * minute)"
        and d = "[''7-100'' \<mapsto> alerted_record (T0 + 50 * minute)]"
        and ch = "ex_channel 0 []" and msg = ex_question
        and c = "noon_prod (T0 + 85 * minute)" and S = "''20''" and al = "[]"
        and t = "T0 + 50 * minute"]
    by (simp add: key created existing_of_def noon_prod_def T0_def minute_def policy_defs
          alerted_record_def)
  from first second third show ?thesis by simp
qed

text \<open>
  The property as stated fails in the handler of \<^verbatim>\<open>ready\<close>: ann's question is tracked
  (it was alerted before), nobody has answered, and the run at \<open>T0 + 85 min\<close>, however
  long after the alert, queues and sends nothing and keeps the id.
\<close>

theorem C4_counterexample:
  "monitored (ex_guild [ex_channel (T0 + 85 * minute) [ex_question]]) ex_question
   \<and> \<not> isAnswered (ex_guild [ex_channel (T0 + 85 * minute) [ex_question]]) ''20''
        [ex_question] ex_question
   \<and> unansweredMessages (scanned
        (ready (ex_guild [ex_channel (T0 + 85 * minute) [ex_question]]) ''20'' ok_sink [''100'']))
     = []
   \<and> sent (ready (ex_guild [ex_channel (T0 + 85 * minute) [ex_question]]) ''20'' ok_sink [''100''])
     = []
   \<and> saved (ready (ex_guild [ex_channel (T0 + 85 * minute) [ex_question]]) ''20'' ok_sink [''100''])
     = [''100'']"
proof -
  have "monitored (ex_guild [ex_channel (T0 + 85 * minute) [ex_question]]) ex_question"
    by (simp add: ex_defs monitored_def resolve_member_def hasClientRole_def is_ext_def
          endsWith_def)
  moreover have "\<not> isAnswered (ex_guild [ex_channel (T0 + 85 * minute) [ex_question]]) ''20''
        [ex_question] ex_question"
    by (simp add: ex_defs isAnswered_def hasStaffReply_def hasStaffReaction_def)
  moreover have "unansweredMessages (scanned
        (ready (ex_guild [ex_channel (T0 + 85 * minute) [ex_question]]) ''20'' ok_sink [''100'']))
     = []"
    by (simp add: ex_defs ready_defs Let_def)
  moreover have "sent (ready (ex_guild [ex_channel (T0 + 85 * minute) [ex_question]]) ''20''
        ok_sink [''100'']) = []"
    by (simp add: ex_defs ready_defs Let_def)
  moreover have "saved (ready (ex_guild [ex_channel (T0 + 85 * minute) [ex_question]]) ''20''
        ok_sink [''100'']) = [''100'']"
    by (simp add: ex_defs ready_defs Let_def)
  ultimately show ?thesis by simp
qed

section \<open>Answered messages\<close>

text \<open>
  C1, as the code has it. In the handler of \<^verbatim>\<open>ready\<close> a message is never queued when
  it has a qualifying reaction, or a reply-after that the handler can see: a later
  non-bot message of the channel whose author holds the staff role by the member
  attached to the message or, without one, by the member cache. Where the cache answers
  as the directory does, that is every qualifying reply-after. The visit of such a
  message leaves \<^verbatim>\<open>unansweredMessages\<close> as it is; every entry that a run queues comes
  from a message of a window that has neither a seen reply-after nor a qualifying
  reaction; what the run sends are the texts of batches of queued entries, and the ids
  it saves are ids that were tracked before or ids of queued entries. Nothing is said of
  a reply whose author has no attached member and is not in the cache. In the handler of
  \<^verbatim>\<open>clientReady\<close> only a later message of a staff member counts: the visit of a
  message that has one changes neither the queue nor the store. Reactions are not read
  there: taking all reactions away changes nothing.
\<close>

theorem C1_answered_not_alerted:
  "(staff_reply_seen g M w msg \<or> qualifying_reaction g M msg \<longrightarrow>
      unansweredMessages (ready_msg g M A ch w msg st) = unansweredMessages st)
   \<and> (cache_warm g w \<and> qualifying_reply g M w msg \<longrightarrow>
        unansweredMessages (ready_msg g M A ch w msg st) = unansweredMessages st)
   \<and> (e \<in> set (unansweredMessages (scanned (ready g M snk A))) \<longrightarrow>
        (\<exists>ch' \<in> set (textChannels g). \<exists>w'. window ch' = Some w'
            \<and> (\<exists>m \<in> set w'. e = entry_of ch' m
                  \<and> \<not> staff_reply_seen g M w' m \<and> \<not> qualifying_reaction g M m)))
   \<and> (\<exists>n. sent (ready g M snk A) =
          map (batch_text M)
            (take n (alertBatches (unansweredMessages (scanned (ready g M snk A))))))
   \<and> (unansweredMessages (scanned (ready g M snk A)) = [] \<longrightarrow> sent (ready g M snk A) = [])
   \<and> set (saved (ready g M snk A))
        \<subseteq> set A \<union> messageId ` set (unansweredMessages (scanned (ready g M snk A)))
   \<and> (later_staff_message g S msgs msg \<longrightarrow> clientReady_msg c g S ch msgs msg st' = st')
   \<and> clientReady_msg c g S ch (map without_reactions msgs) (without_reactions msg) st'
        = clientReady_msg c g S ch msgs msg st'"
proof -
  have 1: "unansweredMessages (ready_msg g M A ch w msg st) = unansweredMessages st"
    if "staff_reply_seen g M w msg \<or> qualifying_reaction g M msg"
    using that by (simp add: ready_msg_unanswered isAnswered_iff)
  have 7: "unansweredMessages (ready_msg g M A ch w msg st) = unansweredMessages st"
    if "cache_warm g w \<and> qualifying_reply g M w msg"
    using that by (simp add: ready_msg_unanswered isAnswered_iff warm_reply_seen)
  have 2: "\<exists>ch' \<in> set (textChannels g). \<exists>w'. window ch' = Some w'
            \<and> (\<exists>m \<in> set w'. e = entry_of ch' m
                  \<and> \<not> staff_reply_seen g M w' m \<and> \<not> qualifying_reaction g M m)"
    if "e \<in> set (unansweredMessages (scanned (ready g M snk A)))"
  proof -
    from that have "e \<in> set (unansweredMessages (ready_scan g M A))"
      by (simp add: scanned_ready split: if_splits)
    then obtain ch' w' m where x: "(ch', w', m) \<in> set (ready_visits g)" "e = entry_of ch' m"
      "\<not> isAnswered g M w' m"
      by (auto simp: scan_unanswered_iff)
    then show ?thesis
      unfolding ready_visits_iff isAnswered_iff by blast
  qed
  have 3: "sent (ready g M snk A) = []"
    if "unansweredMessages (scanned (ready g M snk A)) = []"
    using that by (rule ready_nothing_queued)
  have 4: "set (saved (ready g M snk A))
        \<subseteq> set A \<union> messageId ` set (unansweredMessages (scanned (ready g M snk A)))"
    using ready_saved_subset [of g M snk A] by auto
  have 5: "clientReady_msg c g S ch msgs msg st' = st'" if "later_staff_message g S msgs msg"
    using that by (simp add: clientReady_msg_fires fires_def staffReplied_iff)
  have 6: "\<exists>n. sent (ready g M snk A) =
          map (batch_text M)
            (take n (alertBatches (unansweredMessages (scanned (ready g M snk A)))))"
    using ready_prefix [of g M snk A] by blast
  from 1 2 3 4 5 6 7 clientReady_msg_without_reactions [of c g S ch msgs msg st']
  show ?thesis by blast
qed

text \<open>
  Instances: in the handler of \<^verbatim>\<open>ready\<close>, ann's question with bob's reaction, ann's
  question followed by bob's reply, and ann's question followed by bob's reply without
  an attached member while the cache knows bob, are not queued; in the handler of
  \<^verbatim>\<open>clientReady\<close> the question followed by the reply is skipped.
\<close>

theorem C1_witness:
  "qualifying_reaction (ex_guild []) ''20'' ex_question_reacted
   \<and> unansweredMessages
       (ready_msg (ex_guild []) ''20'' [] (ex_channel 0 []) [ex_question_reacted]
          ex_question_reacted \<lparr>unansweredMessages = [], answeredMessageIds = [], io_log = []\<rparr>)
     = []
   \<and> staff_reply_seen (ex_guild []) ''20'' [ex_question, ex_reply] ex_question
   \<and> unansweredMessages
       (ready_msg (ex_guild []) ''20'' [] (ex_channel 0 []) [ex_question, ex_reply]
          ex_question \<lparr>unansweredMessages = [], answeredMessageIds = [], io_log = []\<rparr>)
     = []
   \<and> cache_warm (ex_guild []) [ex_question, ex_reply_bare]
   \<and> qualifying_reply (ex_guild []) ''20'' [ex_question, ex_reply_bare] ex_question
   \<and> unansweredMessages
       (ready_msg (ex_guild []) ''20'' [] (ex_channel 0 []) [ex_question, ex_reply_bare]
          ex_question \<lparr>unansweredMessages = [], answeredMessageIds = [], io_log = []\<rparr>)
     = []
   \<and> later_staff_message (ex_guild []) ''20'' [ex_reply, ex_question] ex_question
   \<and> clientReady_msg (noon_prod (T0 + 50 * minute)) (ex_guild []) ''20'' (ex_channel 0 [])
       [ex_reply, ex_question] ex_question ([], Map.empty) = ([], Map.empty)"
proof -
  let ?st0 = "\<lparr>unansweredMessages = [], answeredMessageIds = [], io_log = []\<rparr>"
  have a: "qualifying_reaction (ex_guild []) ''20'' ex_question_reacted"
    by (simp add: ex_defs qualifying_reaction_def staff_reactor_def has_role_def)
  have b: "staff_reply_seen (ex_guild []) ''20'' [ex_question, ex_reply] ex_question"
    by (simp add: ex_defs staff_reply_seen_def has_role_def)
  have c: "later_staff_message (ex_guild []) ''20'' [ex_reply, ex_question] ex_question"
    by (simp add: ex_defs later_staff_message_def resolve_member_def has_role_def)
  have d: "cache_warm (ex_guild []) [ex_question, ex_reply_bare]"
    by (simp add: ex_defs cache_warm_def)
  have e: "qualifying_reply (ex_guild []) ''20'' [ex_question, ex_reply_bare] ex_question"
    by (simp add: ex_defs qualifying_reply_def resolve_member_def has_role_def)
  from a C1_answered_not_alerted [where g = "ex_guild []" and M = "''20''"
        and w = "[ex_question_reacted]" and msg = ex_question_reacted and A = "[]"
        and ch = "ex_channel 0 []" and st = ?st0]
  have a': "unansweredMessages
       (ready_msg (ex_guild []) ''20'' [] (ex_channel 0 []) [ex_question_reacted]
          ex_question_reacted ?st0) = unansweredMessages ?st0"
    by blast
  from b c C1_answered_not_alerted [where g = "ex_guild []" and M = "''20''"
        and w = "[ex_question, ex_reply]" and msg = ex_question and A = "[]"
        and ch = "ex_channel 0 []" and st = ?st0
        and S = "''20''" and msgs = "[ex_reply, ex_question]"
        and c = "noon_prod (T0 + 50 * minute)" and st' = "([], Map.empty)"]
  have b': "unansweredMessages
       (ready_msg (ex_guild []) ''20'' [] (ex_channel 0 []) [ex_question, ex_reply]
          ex_question ?st0) = unansweredMessages ?st0"
    and c': "clientReady_msg (noon_prod (T0 + 50 * minute)) (ex_guild []) ''20''
       (ex_channel 0 []) [ex_reply, ex_question] ex_question ([], Map.empty) = ([], Map.empty)"
    by blast+
  from d e C1_answered_not_alerted [where g = "ex_guild []" and M = "''20''"
        and w = "[ex_question, ex_reply_bare]" and msg = ex_question and A = "[]"
        and ch = "ex_channel 0 []" and st = ?st0]
  have e': "unansweredMessages
       (ready_msg (ex_guild []) ''20'' [] (ex_channel 0 []) [ex_question, ex_reply_bare]
          ex_question ?st0) = unansweredMessages ?st0"
    by blast
  from a b c d e a' b' c' e' show ?thesis by simp
qed

text \<open>
  The property as stated fails in the handler of \<^verbatim>\<open>clientReady\<close> for a reaction (the
  second example of the specification): bob has reacted to ann's question, nobody has
  replied, and the run at \<open>T0 + 50 min\<close> queues, sends and records an alert for it. It
  also fails in the handler of \<^verbatim>\<open>ready\<close> for a reply whose author is staff in the
  directory but has no attached member and is not in the member cache: bob's reply is a
  qualifying reply-after, and the run queues, sends and marks ann's question.
\<close>

theorem C1_counterexample:
  "qualifying_reaction (ex_guild [ex_channel 0 [ex_question_reacted]]) ''20'' ex_question_reacted
   \<and> alertMessages (clientReady (noon_prod (T0 + 50 * minute))
        (ex_guild [ex_channel 0 [ex_question_reacted]]) ''20'' ok_sink Map.empty)
     = [alert_text ''20'' (ex_channel 0 [ex_question_reacted]) ex_question_reacted]
   \<and> delivered (clientReady (noon_prod (T0 + 50 * minute))
        (ex_guild [ex_channel 0 [ex_question_reacted]]) ''20'' ok_sink Map.empty)
     = [alert_text ''20'' (ex_channel 0 [ex_question_reacted]) ex_question_reacted]
   \<and> saved_db (clientReady (noon_prod (T0 + 50 * minute))
        (ex_guild [ex_channel 0 [ex_question_reacted]]) ''20'' ok_sink Map.empty) ''7-100''
     = Some (alerted_record (T0 + 50 * minute))
   \<and> qualifying_reply (ex_cold_guild [ex_channel (T0 + 50 * minute) [ex_reply_bare, ex_question]])
        ''20'' [ex_question, ex_reply_bare] ex_question
   \<and> window (ex_channel (T0 + 50 * minute) [ex_reply_bare, ex_question])
       = Some [ex_question, ex_reply_bare]
   \<and> unansweredMessages (scanned
        (ready (ex_cold_guild [ex_channel (T0 + 50 * minute) [ex_reply_bare, ex_question]])
           ''20'' ok_sink []))
     = [entry_of (ex_channel (T0 + 50 * minute) [ex_reply_bare, ex_question]) ex_question]
   \<and> length (sent
        (ready (ex_cold_guild [ex_channel (T0 + 50 * minute) [ex_reply_bare, ex_question]])
           ''20'' ok_sink [])) = 1
   \<and> saved (ready (ex_cold_guild [ex_channel (T0 + 50 * minute) [ex_reply_bare, ex_question]])
        ''20'' ok_sink []) = [''100'']"
proof -
  have "qualifying_reaction (ex_guild [ex_channel 0 [ex_question_reacted]]) ''20''
          ex_question_reacted"
    by (simp add: ex_defs qualifying_reaction_def staff_reactor_def has_role_def)
  moreover have "alertMessages (clientReady (noon_prod (T0 + 50 * minute))
        (ex_guild [ex_channel 0 [ex_question_reacted]]) ''20'' ok_sink Map.empty)
     = [alert_text ''20'' (ex_channel 0 [ex_question_reacted]) ex_question_reacted]"
    by (simp add: ex_defs policy_defs run_defs Let_def)
  moreover have "delivered (clientReady (noon_prod (T0 + 50 * minute))
        (ex_guild [ex_channel 0 [ex_question_reacted]]) ''20'' ok_sink Map.empty)
     = [alert_text ''20'' (ex_channel 0 [ex_question_reacted]) ex_question_reacted]"
    by (simp add: ex_defs policy_defs run_defs Let_def)
  moreover have "saved_db (clientReady (noon_prod (T0 + 50 * minute))
        (ex_guild [ex_channel 0 [ex_question_reacted]]) ''20'' ok_sink Map.empty) ''7-100''
     = Some (alerted_record (T0 + 50 * minute))"
    by (simp add: ex_defs policy_defs run_defs Let_def)
  moreover have "qualifying_reply
        (ex_cold_guild [ex_channel (T0 + 50 * minute) [ex_reply_bare, ex_question]])
        ''20'' [ex_question, ex_reply_bare] ex_question"
    by (simp add: ex_defs qualifying_reply_def resolve_member_def has_role_def)
  moreover have "window (ex_channel (T0 + 50 * minute) [ex_reply_bare, ex_question])
       = Some [ex_question, ex_reply_bare]"
    by (simp add: ex_defs ready_defs Let_def)
  moreover have "unansweredMessages (scanned
        (ready (ex_cold_guild [ex_channel (T0 + 50 * minute) [ex_reply_bare, ex_question]])
           ''20'' ok_sink []))
     = [entry_of (ex_channel (T0 + 50 * minute) [ex_reply_bare, ex_question]) ex_question]"
    by (simp add: ex_defs ready_defs Let_def)
  moreover have "length (sent
        (ready (ex_cold_guild [ex_channel (T0 + 50 * minute) [ex_reply_bare, ex_question]])
           ''20'' ok_sink [])) = 1"
    by (simp add: ex_defs ready_defs Let_def)
  moreover have "saved
        (ready (ex_cold_guild [ex_channel (T0 + 50 * minute) [ex_reply_bare, ex_question]])
           ''20'' ok_sink []) = [''100'']"
    by (simp add: ex_defs ready_defs Let_def)
  ultimately show ?thesis by simp
qed

text \<open>
  C5, as the code has it. \<^verbatim>\<open>hasStaffReply\<close> and \<^verbatim>\<open>hasStaffReaction\<close> are both
  computed, in that order, and \<^verbatim>\<open>isAnswered\<close> is their disjunction. The reaction check
  is not skipped after a reply: for every message that passes the checks on its author,
  the calls of the visit are those of the reaction check, whatever the reply check
  returned, and they start with the fetch of the reactors of the first emoji when the
  message has a reaction. Only inside the reaction check does the search stop early, at
  the first reactor who is staff.
\<close>

theorem C5_reaction_check_always_runs:
  "isAnswered g M w msg = (hasStaffReply g M w msg \<or> fst (hasStaffReaction g M msg))
   \<and> (monitored g msg \<longrightarrow>
        io_log (ready_msg g M A ch w msg st) = io_log st @ snd (hasStaffReaction g M msg))
   \<and> (reactions msg \<noteq> [] \<longrightarrow>
        (\<exists>tr. snd (hasStaffReaction g M msg)
                 = FetchReactors (msg_id msg) (emoji (hd (reactions msg))) # tr))
   \<and> (hasStaffReply g M w msg \<and> monitored g msg \<and> reactions msg \<noteq> [] \<longrightarrow>
        io_log (ready_msg g M A ch w msg st) \<noteq> io_log st)
   \<and> (staff_reactor g M u \<longrightarrow> react_users g M (u # us) = (True, [FetchMember (user_id u)]))"
proof -
  have 1: "isAnswered g M w msg = (hasStaffReply g M w msg \<or> fst (hasStaffReaction g M msg))"
    by (simp add: isAnswered_def)
  have 2: "io_log (ready_msg g M A ch w msg st) = io_log st @ snd (hasStaffReaction g M msg)"
    if "monitored g msg"
    using that by (simp add: ready_msg_io)
  have 3: "\<exists>tr. snd (hasStaffReaction g M msg)
                 = FetchReactors (msg_id msg) (emoji (hd (reactions msg))) # tr"
    if "reactions msg \<noteq> []"
    using that by (cases "reactions msg") (simp_all add: hasStaffReaction_def)
  have 4: "io_log (ready_msg g M A ch w msg st) \<noteq> io_log st"
    if "monitored g msg" "reactions msg \<noteq> []"
    using 2 [OF that(1)] 3 [OF that(2)] by auto
  have 5: "react_users g M (u # us) = (True, [FetchMember (user_id u)])"
    if "staff_reactor g M u"
    using that by (auto simp: staff_reactor_def)
  from 1 2 3 4 5 show ?thesis by blast
qed

theorem C5_witness:
  "monitored (ex_guild []) ex_question_reacted
   \<and> hasStaffReply (ex_guild []) ''20'' [ex_question_reacted, ex_reply] ex_question_reacted
   \<and> reactions ex_question_reacted \<noteq> []
   \<and> staff_reactor (ex_guild []) ''20'' ex_bob
   \<and> io_log (ready_msg (ex_guild []) ''20'' [] (ex_channel 0 [])
        [ex_question_reacted, ex_reply] ex_question_reacted
        \<lparr>unansweredMessages = [], answeredMessageIds = [], io_log = []\<rparr>) \<noteq> []
   \<and> react_users (ex_guild []) ''20'' [ex_bob, ex_ann] = (True, [FetchMember ''2''])"
proof -
  have a: "monitored (ex_guild []) ex_question_reacted"
    by (simp add: ex_defs monitored_def resolve_member_def hasClientRole_def is_ext_def
          endsWith_def)
  have b: "hasStaffReply (ex_guild []) ''20'' [ex_question_reacted, ex_reply] ex_question_reacted"
    by (simp add: ex_defs hasStaffReply_def has_role_def)
  have c: "reactions ex_question_reacted \<noteq> []"
    by (simp add: ex_defs)
  have d: "staff_reactor (ex_guild []) ''20'' ex_bob"
    by (simp add: ex_defs staff_reactor_def has_role_def)
  have e: "user_id ex_bob = ''2''" by (simp add: ex_defs)
  note th = C5_reaction_check_always_runs [where g = "ex_guild []" and M = "''20''"
        and w = "[ex_question_reacted, ex_reply]" and msg = ex_question_reacted and A = "[]"
        and ch = "ex_channel 0 []"
        and st = "\<lparr>unansweredMessages = [], answeredMessageIds = [], io_log = []\<rparr>"
        and u = ex_bob and us = "[ex_ann]"]
  from th a b c
  have "io_log (ready_msg (ex_guild []) ''20'' [] (ex_channel 0 [])
        [ex_question_reacted, ex_reply] ex_question_reacted
        \<lparr>unansweredMessages = [], answeredMessageIds = [], io_log = []\<rparr>)
      \<noteq> io_log \<lparr>unansweredMessages = [], answeredMessageIds = [], io_log = []\<rparr>"
    by blast
  then have f: "io_log (ready_msg (ex_guild []) ''20'' [] (ex_channel 0 [])
        [ex_question_reacted, ex_reply] ex_question_reacted
        \<lparr>unansweredMessages = [], answeredMessageIds = [], io_log = []\<rparr>) \<noteq> []"
    by simp
  from th d
  have "react_users (ex_guild []) ''20'' [ex_bob, ex_ann] = (True, [FetchMember (user_id ex_bob)])"
    by blast
  then have h: "react_users (ex_guild []) ''20'' [ex_bob, ex_ann] = (True, [FetchMember ''2''])"
    by (simp only: e)
  from a b c d f h show ?thesis by blast
qed

text \<open>
  The property as stated fails: bob has replied to ann's question, so the reply check succeeds, and
  the visit still fetches the reactors of the emoji and the member of the reactor.
\<close>

theorem C5_counterexample:
  "hasStaffReply (ex_guild []) ''20'' [ex_question_reacted, ex_reply] ex_question_reacted
   \<and> io_log (ready_msg (ex_guild []) ''20'' [] (ex_channel 0 [])
        [ex_question_reacted, ex_reply] ex_question_reacted
        \<lparr>unansweredMessages = [], answeredMessageIds = [], io_log = []\<rparr>)
     = [FetchReactors ''100'' ''ok'', FetchMember ''2'']"
  by (simp add: ex_defs ready_defs Let_def)

section \<open>Sending and marking\<close>

text \<open>
  C3, as the code has it. In the handler of \<^verbatim>\<open>ready\<close> the ids that a run adds to
  \<^verbatim>\<open>db.alertedMessages\<close> are exactly those of the batches it has sent, a prefix of the
  batches that ends at the first send that fails; when the channel of the alerts cannot
  be fetched or the first send fails, nothing is sent, no queued message is marked, and
  a later run queues such a message again as long as it is unanswered. In the handler
  of \<^verbatim>\<open>clientReady\<close> the record is written when the alert is queued, before any send:
  the saved store and the queue do not depend on what the sink does.
\<close>

theorem C3_marking_and_sending:
  "(\<exists>n \<le> length (alertBatches (unansweredMessages (scanned (ready g M snk A)))).
      saved (ready g M snk A) =
        filter (\<lambda>i. i \<notin> set (answeredMessageIds (scanned (ready g M snk A)))) A
          @ map messageId
              (concat (take n (alertBatches (unansweredMessages (scanned (ready g M snk A))))))
      \<and> sent (ready g M snk A) =
          map (batch_text M)
            (take n (alertBatches (unansweredMessages (scanned (ready g M snk A)))))
      \<and> (\<forall>j < n. send_ok snk j)
      \<and> (n < length (alertBatches (unansweredMessages (scanned (ready g M snk A))))
           \<and> pm_fetch snk \<longrightarrow> \<not> send_ok snk n))
   \<and> (\<not> pm_fetch snk \<or> \<not> send_ok snk 0 \<longrightarrow>
        sent (ready g M snk A) = []
        \<and> (\<forall>e \<in> set (unansweredMessages (scanned (ready g M snk A))).
              messageId e \<notin> set (saved (ready g M snk A))))
   \<and> (monitored g msg \<and> \<not> isAnswered g M w msg \<and> msg_id msg \<notin> set A' \<longrightarrow>
        unansweredMessages (ready_msg g M A' ch w msg st)
          = unansweredMessages st @ [entry_of ch msg])
   \<and> saved_db (clientReady c g S snk d) = saved_db (clientReady c g S snk' d)
   \<and> alertMessages (clientReady c g S snk d) = alertMessages (clientReady c g S snk' d)"
proof -
  have 2: "sent (ready g M snk A) = []
        \<and> (\<forall>e \<in> set (unansweredMessages (scanned (ready g M snk A))).
              messageId e \<notin> set (saved (ready g M snk A)))"
    if fail: "\<not> pm_fetch snk \<or> \<not> send_ok snk 0"
  proof -
    have out: "saved (ready g M snk A) =
        (if clientRoles g = [] then A
         else filter (\<lambda>i. i \<notin> set (answeredMessageIds (ready_scan g M A))) A)"
      "sent (ready g M snk A) = []"
      using fail by (auto simp: ready_def Let_def filter_answered send_batches_none)
    then have "set (saved (ready g M snk A)) \<subseteq> set A" by auto
    then show ?thesis using out(2) queued_not_tracked [of _ g M snk A] by blast
  qed
  have 3: "unansweredMessages (ready_msg g M A' ch w msg st)
          = unansweredMessages st @ [entry_of ch msg]"
    if "monitored g msg \<and> \<not> isAnswered g M w msg \<and> msg_id msg \<notin> set A'"
    using that by (simp add: ready_msg_unanswered)
  have 4: "saved_db (clientReady c g S snk d) = saved_db (clientReady c g S snk' d)"
    "alertMessages (clientReady c g S snk d) = alertMessages (clientReady c g S snk' d)"
    by (simp_all add: clientReady_def Let_def)
  from ready_prefix [of g M snk A] 2 3 4 show ?thesis by blast
qed

text \<open>
  An instance in the handler of \<^verbatim>\<open>ready\<close>: the send of the alert for ann's question
  fails, so nothing is sent and the question is not marked; with a working sink the
  alert is sent and the question is marked.
\<close>

theorem C3_witness:
  "\<not> send_ok failing_sink 0
   \<and> unansweredMessages (scanned (ready (ex_guild [ex_channel (T0 + 50 * minute) [ex_question]])
        ''20'' failing_sink []))
     = [entry_of (ex_channel (T0 + 50 * minute) [ex_question]) ex_question]
   \<and> sent (ready (ex_guild [ex_channel (T0 + 50 * minute) [ex_question]]) ''20'' failing_sink [])
     = []
   \<and> ''100'' \<notin> set (saved (ready (ex_guild [ex_channel (T0 + 50 * minute) [ex_question]])
        ''20'' failing_sink []))
   \<and> saved (ready (ex_guild [ex_channel (T0 + 50 * minute) [ex_question]]) ''20'' ok_sink [])
     = [''100'']"
proof -
  let ?g = "ex_guild [ex_channel (T0 + 50 * minute) [ex_question]]"
  let ?e = "entry_of (ex_channel (T0 + 50 * minute) [ex_question]) ex_question"
  have a: "\<not> send_ok failing_sink 0" by (simp add: failing_sink_def)
  have b: "unansweredMessages (scanned (ready ?g ''20'' failing_sink [])) = [?e]"
    by (simp add: ex_defs ready_defs Let_def)
  have c: "messageId ?e = ''100''" by (simp add: entry_of_def ex_question_def)
  from C3_marking_and_sending [where g = ?g and M = "''20''" and snk = failing_sink
      and A = "[]"] a
  have "sent (ready ?g ''20'' failing_sink []) = []
        \<and> (\<forall>e \<in> set (unansweredMessages (scanned (ready ?g ''20'' failing_sink []))).
              messageId e \<notin> set (saved (ready ?g ''20'' failing_sink [])))"
    by blast
  then have d: "sent (ready ?g ''20'' failing_sink []) = []"
    and e: "''100'' \<notin> set (saved (ready ?g ''20'' failing_sink []))"
    unfolding b using c by auto
  have f: "saved (ready ?g ''20'' ok_sink []) = [''100'']"
    by (simp add: ex_defs ready_defs Let_def)
  from a b d e f show ?thesis by blast
qed

text \<open>
  The property as stated fails in the handler of \<^verbatim>\<open>clientReady\<close>: the send of the alert for ann's
  question fails at \<open>T0 + 50 min\<close>, nothing is delivered, and the store is saved with the
  record of the alert all the same; the next run, ten minutes later and with a working
  sink, is inside the cooldown and does not alert the question again.
\<close>

theorem C3_counterexample:
  "delivered (clientReady (noon_prod (T0 + 50 * minute))
       (ex_guild [ex_channel 0 [ex_question]]) ''20'' failing_sink Map.empty) = []
   \<and> saved_db (clientReady (noon_prod (T0 + 50 * minute))
       (ex_guild [ex_channel 0 [ex_question]]) ''20'' failing_sink Map.empty) ''7-100''
     = Some (alerted_record (T0 + 50 * minute))
   \<and> alertMessages (clientReady (noon_prod (T0 + 60 * minute))
       (ex_guild [ex_channel 0 [ex_question]]) ''20'' ok_sink
       (saved_db (clientReady (noon_prod (T0 + 50 * minute))
          (ex_guild [ex_channel 0 [ex_question]]) ''20'' failing_sink Map.empty))) = []"
proof -
  have 1: "delivered (clientReady (noon_prod (T0 + 50 * minute))
       (ex_guild [ex_channel 0 [ex_question]]) ''20'' failing_sink Map.empty) = []"
    by (simp add: ex_defs policy_defs run_defs Let_def)
  have 2: "saved_db (clientReady (noon_prod (T0 + 50 * minute))
       (ex_guild [ex_channel 0 [ex_question]]) ''20'' failing_sink Map.empty)
     = [''7-100'' \<mapsto> alerted_record (T0 + 50 * minute)]"
    by (simp add: ex_defs policy_defs run_defs Let_def)
  have 3: "alertMessages (clientReady (noon_prod (T0 + 60 * minute))
       (ex_guild [ex_channel 0 [ex_question]]) ''20'' ok_sink
       [''7-100'' \<mapsto> alerted_record (T0 + 50 * minute)]) = []"
    by (simp add: ex_defs policy_defs run_defs Let_def)
  from 1 2 3 show ?thesis by simp
qed

section \<open>The window\<close>

text \<open>
  C6, as the code has it. In the handler of \<^verbatim>\<open>ready\<close> the window of a channel, whatever
  the pages of the transport hold and in whatever order, is sorted by timestamp, oldest
  first, holds no message older than three hours before the clock reading of the fetch,
  and is the list that the loop over the messages runs over; a channel whose fetch fails
  is skipped. The handler of \<^verbatim>\<open>clientReady\<close> has no lookback and no sort: its loop
  runs over the reply to the fetch of the latest twenty messages, in the order of the
  transport.
\<close>

theorem C6_window:
  "(window ch = Some w \<longrightarrow>
      sorted (map createdTimestamp w)
      \<and> (\<forall>m \<in> set w. clock ch - timeWindow \<le> createdTimestamp m)
      \<and> ready_channel g M A ch st = fold (ready_msg g M A ch w) w st)
   \<and> (window ch = None \<longrightarrow> ready_channel g M A ch st = st)
   \<and> (latest ch = Some msgs \<longrightarrow>
        clientReady_channel c g S ch st' = fold (clientReady_msg c g S ch msgs) msgs st')"
proof -
  have 1: "sorted (map createdTimestamp w)
      \<and> (\<forall>m \<in> set w. clock ch - timeWindow \<le> createdTimestamp m)
      \<and> ready_channel g M A ch st = fold (ready_msg g M A ch w) w st"
    if "window ch = Some w"
    using that window_props(1,2) [OF that] by (simp add: ready_channel_def)
  have 2: "ready_channel g M A ch st = st" if "window ch = None"
    using that by (simp add: ready_channel_def)
  have 3: "clientReady_channel c g S ch st' = fold (clientReady_msg c g S ch msgs) msgs st'"
    if "latest ch = Some msgs"
    using that by (simp add: clientReady_channel_def)
  from 1 2 3 show ?thesis by blast
qed

text \<open>
  An instance: the transport pages newest first, bob's reply, ann's question with the
  reaction, and a message of four hours before \<open>T0\<close>. At \<open>T0 + 50 min\<close> the window is the
  question and then the reply.
\<close>

theorem C6_witness:
  "window (ex_channel (T0 + 50 * minute)
      [ex_reply, ex_question_reacted, ex_question\<lparr>createdTimestamp := T0 - 240 * minute\<rparr>])
     = Some [ex_question_reacted, ex_reply]
   \<and> sorted (map createdTimestamp [ex_question_reacted, ex_reply])
   \<and> (T0 + 50 * minute) - timeWindow \<le> createdTimestamp ex_question_reacted
   \<and> (T0 + 50 * minute) - timeWindow \<le> createdTimestamp ex_reply"
proof -
  let ?ch = "ex_channel (T0 + 50 * minute)
      [ex_reply, ex_question_reacted, ex_question\<lparr>createdTimestamp := T0 - 240 * minute\<rparr>]"
  have a: "window ?ch = Some [ex_question_reacted, ex_reply]"
    by (simp add: ex_defs ready_defs Let_def)
  have b: "clock ?ch = T0 + 50 * minute" by (simp add: ex_channel_def)
  from C6_window [where ch = ?ch and w = "[ex_question_reacted, ex_reply]"] a
  have "sorted (map createdTimestamp [ex_question_reacted, ex_reply])
      \<and> (\<forall>m \<in> set [ex_question_reacted, ex_reply]. clock ?ch - timeWindow \<le> createdTimestamp m)"
    by blast
  then show ?thesis using a unfolding b by simp
qed

text \<open>
  The property as stated fails in the handler of \<^verbatim>\<open>clientReady\<close>: the transport replies newest
  first with ann's second message and her question, both ten hours old at the run. Both
  are evaluated, the newer one first.
\<close>

theorem C6_counterexample:
  "createdTimestamp ex_question < createdTimestamp ex_followup
   \<and> createdTimestamp ex_followup < now (noon_prod (T0 + 600 * minute)) - timeWindow
   \<and> alertMessages (clientReady (noon_prod (T0 + 600 * minute))
        (ex_guild [ex_channel 0 [ex_followup, ex_question]]) ''20'' ok_sink Map.empty)
     = [alert_text ''20'' (ex_channel 0 [ex_followup, ex_question]) ex_followup,
        alert_text ''20'' (ex_channel 0 [ex_followup, ex_question]) ex_question]"
  by (simp add: ex_defs policy_defs run_defs timeWindow_def Let_def)

section \<open>Clearing and convergence\<close>

text \<open>
  C7, as the code has it. In the handler of \<^verbatim>\<open>ready\<close>, a tracked message that the run
  visits (it is in the window of a text channel and passes the checks on its author) is
  removed from \<^verbatim>\<open>db.alertedMessages\<close> by that run when it has a qualifying reaction,
  or a reply-after that the handler can see (the replier holds the staff role by the
  member attached to the message or, without one, by the member cache), which where the
  cache answers as the directory does is every qualifying reply-after; and the visit of
  such a message queues nothing whatever the tracked ids are. Nothing is said of a reply
  whose author has no attached member and is not in the cache. In the handler of
  \<^verbatim>\<open>clientReady\<close> a later message of a staff member makes the loop skip the message:
  nothing is queued and the store, the record of the message included, stays as it is;
  and no run of that handler removes a record from the store.
\<close>

theorem C7_cleared_once_answered:
  assumes "clientRoles g \<noteq> []"
      and "ch \<in> set (textChannels g)" and "window ch = Some w" and "msg \<in> set w"
      and "monitored g msg"
      and "staff_reply_seen g M w msg \<or> qualifying_reaction g M msg
           \<or> cache_warm g w \<and> qualifying_reply g M w msg"
      and "msg_id msg \<in> set A"
  shows "msg_id msg \<notin> set (saved (ready g M snk A))
       \<and> unansweredMessages (ready_msg g M A' ch w msg st) = unansweredMessages st
       \<and> (later_staff_message g S msgs msg' \<longrightarrow>
            clientReady_msg c g S ch' msgs msg' (al, d) = (al, d))
       \<and> (d key \<noteq> None \<longrightarrow> saved_db (clientReady c g S snk' d) key \<noteq> None)"
proof -
  have ans: "isAnswered g M w msg"
    using assms(6) by (auto simp: isAnswered_iff warm_reply_seen)
  have "(ch, w, msg) \<in> set (ready_visits g)"
    using assms(2,3,4) by (simp add: ready_visits_iff)
  then have "msg_id msg \<in> set (answeredMessageIds (ready_scan g M A))"
    using assms(5,7) ans by (force simp: scan_answered_iff)
  then have "msg_id msg \<in> set (answeredMessageIds (scanned (ready g M snk A)))"
    using assms(1) by (simp add: scanned_ready)
  moreover have "msg_id msg \<notin> messageId ` set (unansweredMessages (scanned (ready g M snk A)))"
    using queued_not_tracked [of _ g M snk A] assms(7) by auto
  ultimately have 1: "msg_id msg \<notin> set (saved (ready g M snk A))"
    using ready_saved_subset [of g M snk A] by blast
  have 2: "unansweredMessages (ready_msg g M A' ch w msg st) = unansweredMessages st"
    using ans by (simp add: ready_msg_unanswered)
  have 3: "clientReady_msg c g S ch' msgs msg' (al, d) = (al, d)"
    if "later_staff_message g S msgs msg'"
    using that by (simp add: clientReady_msg_fires fires_def staffReplied_iff)
  have 4: "saved_db (clientReady c g S snk' d) key \<noteq> None" if "d key \<noteq> None"
    using that visits_write [of c g S "clientReady_visits g" "([], d)" key]
    by (auto simp: clientReady_def Let_def clientReady_scan_visits)
  from 1 2 3 4 show ?thesis by blast
qed

text \<open>
  An instance: ann's question is tracked, bob has replied; the run of the handler of
  \<^verbatim>\<open>ready\<close> at \<open>T0 + 50 min\<close> saves an empty list.
\<close>

theorem C7_witness:
  "clientRoles (ex_guild [ex_channel (T0 + 50 * minute) [ex_reply, ex_question]]) \<noteq> []
   \<and> window (ex_channel (T0 + 50 * minute) [ex_reply, ex_question])
       = Some [ex_question, ex_reply]
   \<and> monitored (ex_guild [ex_channel (T0 + 50 * minute) [ex_reply, ex_question]]) ex_question
   \<and> staff_reply_seen (ex_guild [ex_channel (T0 + 50 * minute) [ex_reply, ex_question]]) ''20''
       [ex_question, ex_reply] ex_question
   \<and> ''100'' \<notin> set (saved (ready (ex_guild [ex_channel (T0 + 50 * minute) [ex_reply, ex_question]])
        ''20'' ok_sink [''100'']))"
proof -
  let ?ch = "ex_channel (T0 + 50 * minute) [ex_reply, ex_question]"
  let ?g = "ex_guild [?ch]"
  have a: "clientRoles ?g \<noteq> []"
    by (simp add: ex_defs clientRoles_def is_ext_def endsWith_def)
  have b: "?ch \<in> set (textChannels ?g)"
    by (simp add: ex_guild_def ex_channel_def textChannels_def)
  have c: "window ?ch = Some [ex_question, ex_reply]"
    by (simp add: ex_defs ready_defs Let_def)
  have d: "ex_question \<in> set [ex_question, ex_reply]" by simp
  have e: "monitored ?g ex_question"
    by (simp add: ex_defs monitored_def resolve_member_def hasClientRole_def is_ext_def
          endsWith_def)
  have f: "staff_reply_seen ?g ''20'' [ex_question, ex_reply] ex_question"
    by (simp add: ex_defs staff_reply_seen_def has_role_def)
  have h: "msg_id ex_question \<in> set [''100'']" by (simp add: ex_question_def)
  have i: "msg_id ex_question = ''100''" by (simp add: ex_question_def)
  from C7_cleared_once_answered [OF a b c d e disjI1 [OF f] h, of ok_sink]
  have "msg_id ex_question \<notin> set (saved (ready ?g ''20'' ok_sink [''100'']))"
    by blast
  then have "''100'' \<notin> set (saved (ready ?g ''20'' ok_sink [''100'']))"
    unfolding i .
  with a c e f show ?thesis by blast
qed

text \<open>
  The property as stated fails in the handler of \<^verbatim>\<open>clientReady\<close>: ann's question was
  alerted at \<open>T0 + 50 min\<close>, bob has replied, and the run at \<open>T0 + 60 min\<close> saves the
  store with the record of the alert still in it. It also fails in the handler of
  \<^verbatim>\<open>ready\<close> when the replier is staff in the directory but has no attached member and
  is not in the member cache: the tracked id of ann's question is kept.
\<close>

theorem C7_counterexample:
  "later_staff_message (ex_guild [ex_channel 0 [ex_reply, ex_question]]) ''20''
      [ex_reply, ex_question] ex_question
   \<and> saved_db (clientReady (noon_prod (T0 + 60 * minute))
        (ex_guild [ex_channel 0 [ex_reply, ex_question]]) ''20'' ok_sink
        [''7-100'' \<mapsto> alerted_record (T0 + 50 * minute)]) ''7-100''
     = Some (alerted_record (T0 + 50 * minute))
   \<and> qualifying_reply (ex_cold_guild [ex_channel (T0 + 60 * minute) [ex_reply_bare, ex_question]])
        ''20'' [ex_question, ex_reply_bare] ex_question
   \<and> window (ex_channel (T0 + 60 * minute) [ex_reply_bare, ex_question])
       = Some [ex_question, ex_reply_bare]
   \<and> saved (ready (ex_cold_guild [ex_channel (T0 + 60 * minute) [ex_reply_bare, ex_question]])
        ''20'' ok_sink [''100'']) = [''100'']"
proof -
  have "later_staff_message (ex_guild [ex_channel 0 [ex_reply, ex_question]]) ''20''
      [ex_reply, ex_question] ex_question"
    by (simp add: ex_defs later_staff_message_def resolve_member_def has_role_def)
  moreover have "saved_db (clientReady (noon_prod (T0 + 60 * minute))
        (ex_guild [ex_channel 0 [ex_reply, ex_question]]) ''20'' ok_sink
        [''7-100'' \<mapsto> alerted_record (T0 + 50 * minute)]) ''7-100''
     = Some (alerted_record (T0 + 50 * minute))"
    by (simp add: ex_defs policy_defs run_defs Let_def)
  moreover have "qualifying_reply
        (ex_cold_guild [ex_channel (T0 + 60 * minute) [ex_reply_bare, ex_question]])
        ''20'' [ex_question, ex_reply_bare] ex_question"
    by (simp add: ex_defs qualifying_reply_def resolve_member_def has_role_def)
  moreover have "window (ex_channel (T0 + 60 * minute) [ex_reply_bare, ex_question])
       = Some [ex_question, ex_reply_bare]"
    by (simp add: ex_defs ready_defs Let_def)
  moreover have "saved
        (ready (ex_cold_guild [ex_channel (T0 + 60 * minute) [ex_reply_bare, ex_question]])
           ''20'' ok_sink [''100'']) = [''100'']"
    by (simp add: ex_defs ready_defs Let_def)
  ultimately show ?thesis by simp
qed

text \<open>
  C9, as the code has it. A second run of the handler of \<^verbatim>\<open>ready\<close> over the same guild,
  started from the list that the first run saved, queues and sends nothing, provided
  that the first run could fetch the channel of the alerts and all its sends succeeded
  (and that the visited messages have distinct ids, as the ids of Discord are). A second
  run of the handler of \<^verbatim>\<open>clientReady\<close> with the same clock reading, started from the
  store that the first run saved, queues nothing and saves the same store, whatever the
  sink did in the first run.
\<close>

theorem C9_second_run_idle:
  "(pm_fetch snk \<and> (\<forall>i. send_ok snk i) \<and> distinct (observed_ids g) \<longrightarrow>
      unansweredMessages (scanned (ready g M snk' (saved (ready g M snk A)))) = []
      \<and> sent (ready g M snk' (saved (ready g M snk A))) = [])
   \<and> alertMessages (clientReady c g S snk' (saved_db (clientReady c g S snk d))) = []
   \<and> saved_db (clientReady c g S snk' (saved_db (clientReady c g S snk d)))
       = saved_db (clientReady c g S snk d)"
proof -
  have 1: "unansweredMessages (scanned (ready g M snk' (saved (ready g M snk A)))) = []
      \<and> sent (ready g M snk' (saved (ready g M snk A))) = []"
    if "pm_fetch snk \<and> (\<forall>i. send_ok snk i) \<and> distinct (observed_ids g)"
  proof -
    have "unansweredMessages (scanned (ready g M snk' (saved (ready g M snk A)))) = []"
      using that by (intro ready_rescan_idle) simp_all
    then show ?thesis by (simp add: ready_nothing_queued)
  qed
  from 1 clientReady_twice [of c g S snk' snk d] show ?thesis by blast
qed

theorem C9_witness:
  "pm_fetch ok_sink \<and> send_ok ok_sink 0
   \<and> distinct (observed_ids (ex_guild [ex_channel (T0 + 50 * minute) [ex_followup, ex_question]]))
   \<and> saved (ready (ex_guild [ex_channel (T0 + 50 * minute) [ex_followup, ex_question]])
        ''20'' ok_sink []) = [''100'', ''102'']
   \<and> unansweredMessages (scanned
        (ready (ex_guild [ex_channel (T0 + 50 * minute) [ex_followup, ex_question]]) ''20'' ok_sink
           (saved (ready (ex_guild [ex_channel (T0 + 50 * minute) [ex_followup, ex_question]])
              ''20'' ok_sink [])))) = []"
proof -
  let ?g = "ex_guild [ex_channel (T0 + 50 * minute) [ex_followup, ex_question]]"
  have a: "pm_fetch ok_sink \<and> (\<forall>i. send_ok ok_sink i)" by (simp add: ok_sink_def)
  have b: "distinct (observed_ids ?g)"
    by (simp add: observed_ids_def ready_visits_def ex_defs ready_defs)
  have c: "saved (ready ?g ''20'' ok_sink []) = [''100'', ''102'']"
    by (simp add: ex_defs ready_defs Let_def)
  from C9_second_run_idle [where snk = ok_sink and g = ?g and M = "''20''" and A = "[]"
      and snk' = ok_sink] a b
  have "unansweredMessages (scanned (ready ?g ''20'' ok_sink (saved (ready ?g ''20'' ok_sink []))))
          = []"
    by blast
  with a b c show ?thesis by blast
qed

text \<open>
  The property as stated fails in the handler of \<^verbatim>\<open>ready\<close> when the send of the first run fails:
  the first run saves an empty list, and the second run, over the same messages, queues
  ann's question again.
\<close>

theorem C9_counterexample:
  "unansweredMessages (scanned
      (ready (ex_guild [ex_channel (T0 + 50 * minute) [ex_question]]) ''20'' ok_sink
         (saved (ready (ex_guild [ex_channel (T0 + 50 * minute) [ex_question]]) ''20''
            failing_sink []))))
     = [entry_of (ex_channel (T0 + 50 * minute) [ex_question]) ex_question]"
proof -
  have "saved (ready (ex_guild [ex_channel (T0 + 50 * minute) [ex_question]]) ''20''
            failing_sink []) = []"
    by (simp add: ex_defs ready_defs Let_def)
  moreover have "unansweredMessages (scanned
      (ready (ex_guild [ex_channel (T0 + 50 * minute) [ex_question]]) ''20'' ok_sink []))
     = [entry_of (ex_channel (T0 + 50 * minute) [ex_question]) ex_question]"
    by (simp add: ex_defs ready_defs Let_def)
  ultimately show ?thesis by simp
qed

end
